theory Spec2Isabelle
  imports Complex_Main "HOL-Library.Stream" "HOL-Library.Multiset" "HOL-Library.Log_Nat"
begin

section \<open>The SHIELD simulation engine (src/script.js)\<close>

text \<open>
  Numbers: the counts of the script (missiles, shots, inventory, counters) are integral
  JavaScript numbers, that is IEEE doubles, and are modelled as \<open>int\<close>. A difference of the
  inventory and a sum of shot counts is computed from configured values of any size and is
  rounded as the double operation rounds it (\<open>dsub\<close>, \<open>dadd\<close> below). A counter that
  is incremented by one (per object, per shot, per loop iteration) is exact below \<open>2^53\<close>
  increments and is modelled by the exact \<open>+ 1\<close>. Probabilities and statistics are modelled
  as \<open>real\<close>. The two non-numeric results the statistics helpers can produce (\<open>NaN\<close> and
  \<open>undefined\<close>) are values of the type \<open>jsnum\<close>.

  Randomness: \<open>Math.random()\<close> is the only entropy source of the script. It is modelled
  as an explicit stream of draws that every stochastic function consumes from the front
  and returns the rest of.
\<close>

subsection \<open>Helpers\<close>

type_synonym rng = "real stream"

definition clamp01 :: "real \<Rightarrow> real" where
  "clamp01 x = max 0 (min 1 x)"

text \<open>
  An integral JavaScript number has a significand of 53 bits. \<open>fl x\<close> is the integer \<open>x\<close>
  rounded to the nearest such number, a tie going to the even significand, as the result of
  every double operation is rounded; every integer of magnitude at most \<open>2^53\<close> is exact.
  The exponent range of doubles is not modelled.
\<close>

definition fl :: "int \<Rightarrow> int" where
  "fl x =
     (let a = \<bar>x\<bar>;
          u = 2 ^ nat (bitlen a - 53);
          q = a div u;
          r = a mod u
      in sgn x * ((if 2 * r < u \<or> (2 * r = u \<and> even q) then q else q + 1) * u))"

text \<open>
  \<open>a - b\<close> and \<open>a + b\<close> on integral JavaScript numbers: the exact result, rounded. An
  integer that is not a JavaScript number (\<open>fl a \<noteq> a\<close>) is not a value the code can hold;
  on such operands the model computes exactly.
\<close>

definition dsub :: "int \<Rightarrow> int \<Rightarrow> int" where
  "dsub a b = (if fl a = a \<and> fl b = b then fl (a - b) else a - b)"

definition dadd :: "int \<Rightarrow> int \<Rightarrow> int" where
  "dadd a b = (if fl a = a \<and> fl b = b then fl (a + b) else a + b)"

definition randUniform :: "rng \<Rightarrow> real \<times> rng" where
  "randUniform g = (shd g, stl g)"

definition bernoulli :: "real \<Rightarrow> rng \<Rightarrow> bool \<times> rng" where
  "bernoulli p g = (case randUniform g of (u, g') \<Rightarrow> (u < p, g'))"

text \<open>
  \<open>Math.random()\<close> returns a number \<open>u\<close> with \<open>0 \<le> u < 1\<close>; a stream is an entropy
  stream of the script only if all its elements are in that range.
\<close>

definition validRng :: "rng \<Rightarrow> bool" where
  "validRng g \<longleftrightarrow> (\<forall>u \<in> sset g. 0 \<le> u \<and> u < 1)"

text \<open>
  Fisher--Yates shuffle. The loop runs \<open>i\<close> from \<open>arr.length - 1\<close> down to \<open>1\<close>; for the
  empty array \<open>arr.length - 1\<close> is \<open>-1\<close> and the loop body never runs, as for
  \<open>length arr - 1 = 0\<close> on \<open>nat\<close>. The index \<open>j = Math.floor(u * (i + 1))\<close> is within
  \<open>0..i\<close> for every draw \<open>u\<close> of \<open>Math.random()\<close>; the destructuring swap is the double
  list update.
\<close>

fun shuffle_loop :: "nat \<Rightarrow> 'a list \<Rightarrow> rng \<Rightarrow> 'a list \<times> rng" where
  "shuffle_loop 0 arr g = (arr, g)"
| "shuffle_loop (Suc i) arr g =
     (case randUniform g of (u, g') \<Rightarrow>
        (let j = nat \<lfloor>u * (real (Suc i) + 1)\<rfloor>
         in shuffle_loop i (arr[Suc i := arr ! j, j := arr ! Suc i]) g'))"

definition shuffle :: "'a list \<Rightarrow> rng \<Rightarrow> 'a list \<times> rng" where
  "shuffle arr g = shuffle_loop (length arr - 1) arr g"

datatype jsnum = Num real | NaN | Undefined

text \<open>\<open>sorted[i]\<close>: an index outside the array reads \<open>undefined\<close>.\<close>

definition at_index :: "real list \<Rightarrow> int \<Rightarrow> jsnum" where
  "at_index xs i = (if 0 \<le> i \<and> i < int (length xs) then Num (xs ! nat i) else Undefined)"

text \<open>Arithmetic with \<open>undefined\<close> or \<open>NaN\<close> gives \<open>NaN\<close>.\<close>

fun js_mul :: "jsnum \<Rightarrow> real \<Rightarrow> jsnum" where
  "js_mul (Num a) w = Num (a * w)"
| "js_mul _ w = NaN"

fun js_add :: "jsnum \<Rightarrow> jsnum \<Rightarrow> jsnum" where
  "js_add (Num a) (Num b) = Num (a + b)"
| "js_add _ _ = NaN"

definition percentile :: "real list \<Rightarrow> real \<Rightarrow> jsnum" where
  "percentile arr p =
     (if length arr = 0 then NaN
      else
        (let sorted = sort arr;
             idx = (p / 100) * (real (length sorted) - 1);
             lo = \<lfloor>idx\<rfloor>;
             hi = \<lceil>idx\<rceil>
         in if lo = hi then at_index sorted lo
            else
              (let w = idx - of_int lo
               in js_add (js_mul (at_index sorted lo) (1 - w)) (js_mul (at_index sorted hi) w))))"

definition mean :: "real list \<Rightarrow> jsnum" where
  "mean arr = (if length arr = 0 then NaN else Num (foldl (+) 0 arr / real (length arr)))"

subsection \<open>Salvo generator\<close>

record target =
  kind :: string
  ident :: string

record params =
  nMissiles :: int
  mirvsPerMissile :: int
  decoysPerWarhead :: int
  pDetectTrack :: real
  pClassifyWarhead :: real
  pFalseAlarmDecoy :: real
  doctrineMode :: string
  shotsPerTarget :: int
  maxShotsPerTarget :: int
  pReengage :: real
  pkWarhead :: real
  pkDecoy :: real
  nInventory :: int
  nTrials :: int
  pSystemUp :: real
  detectDegradeFactor :: real
  pkDegradeFactor :: real

text \<open>The decimal digits of a counter, as the template literals \<open>`W${w}`\<close> print it.\<close>

fun decimal :: "nat \<Rightarrow> string" where
  "decimal n =
     (if n < 10 then [char_of (48 + n)]
      else decimal (n div 10) @ [char_of (48 + n mod 10)])"

record salvo =
  targets :: "target list"
  realWarheads_g :: int
  decoys :: int

definition generateTargets :: "params \<Rightarrow> rng \<Rightarrow> salvo \<times> rng" where
  "generateTargets ps g =
     (let realWarheads = nMissiles ps * mirvsPerMissile ps;
          decoys = realWarheads * decoysPerWarhead ps;
          ws = map (\<lambda>w. \<lparr>kind = ''warhead'', ident = ''W'' @ decimal w\<rparr>) [0..<nat realWarheads];
          ds = map (\<lambda>d. \<lparr>kind = ''decoy'', ident = ''D'' @ decimal d\<rparr>) [0..<nat decoys]
      in case shuffle (ws @ ds) g of (tgts, g') \<Rightarrow>
           (\<lparr>targets = tgts, realWarheads_g = realWarheads, decoys = decoys\<rparr>, g'))"

subsection \<open>Classification\<close>

definition classifyTarget :: "target \<Rightarrow> params \<Rightarrow> rng \<Rightarrow> bool \<times> rng" where
  "classifyTarget tgt ps g =
     (if kind tgt = ''warhead'' then bernoulli (pClassifyWarhead ps) g
      else bernoulli (pFalseAlarmDecoy ps) g)"

subsection \<open>Engagement\<close>

record EngagementOutcome =
  killed :: bool
  shotsFired :: int
  inventoryRemaining_e :: int

text \<open>
  The barrage loop \<open>for (s = 0; s < alloc; s++) if (bernoulli(pk)) { killed = true; break; }\<close>,
  started at \<open>s\<close>: it returns \<open>killed\<close> and the entropy left.
\<close>

function barrage_loop :: "int \<Rightarrow> int \<Rightarrow> real \<Rightarrow> rng \<Rightarrow> bool \<times> rng" where
  "barrage_loop s alloc pk g =
     (if s < alloc then
        (if fst (bernoulli pk g) then (True, snd (bernoulli pk g))
         else barrage_loop (s + 1) alloc pk (snd (bernoulli pk g)))
      else (False, g))"
  by pat_completeness auto
termination
  by (relation "measure (\<lambda>(s, alloc, pk, g). nat (alloc - s))") auto

text \<open>
  The shoot-look-shoot loop, started at \<open>s\<close> with \<open>shotsFired\<close> shots already taken. Both
  the \<open>return\<close> inside the loop (a hit) and the code after the loop (the cap is reached,
  or re-engagement is not feasible) are results of the function.
\<close>

function sls_loop ::
  "int \<Rightarrow> int \<Rightarrow> int \<Rightarrow> int \<Rightarrow> real \<Rightarrow> real \<Rightarrow> rng \<Rightarrow> EngagementOutcome \<times> rng" where
  "sls_loop s cap fired inventory pk pRe g =
     (if s < cap then
        (if fst (bernoulli pk g) then
           (\<lparr>killed = True, shotsFired = fired + 1,
             inventoryRemaining_e = dsub inventory (fired + 1)\<rparr>, snd (bernoulli pk g))
         else if \<not> fst (bernoulli pRe (snd (bernoulli pk g))) then
           (\<lparr>killed = False, shotsFired = fired + 1,
             inventoryRemaining_e = dsub inventory (fired + 1)\<rparr>,
            snd (bernoulli pRe (snd (bernoulli pk g))))
         else sls_loop (s + 1) cap (fired + 1) inventory pk pRe
                (snd (bernoulli pRe (snd (bernoulli pk g)))))
      else
        (\<lparr>killed = False, shotsFired = fired,
          inventoryRemaining_e = dsub inventory fired\<rparr>, g))"
  by pat_completeness auto
termination
  by (relation "measure (\<lambda>(s, cap, fired, inventory, pk, pRe, g). nat (cap - s))") auto

definition engageTarget ::
  "target \<Rightarrow> params \<Rightarrow> int \<Rightarrow> rng \<Rightarrow> EngagementOutcome \<times> rng" where
  "engageTarget tgt ps inventory g =
     (let pk = (if kind tgt = ''warhead'' then pkWarhead ps else pkDecoy ps)
      in if inventory \<le> 0 then
           (\<lparr>killed = False, shotsFired = 0, inventoryRemaining_e = inventory\<rparr>, g)
         else if doctrineMode ps = ''barrage'' then
           (let alloc = min (shotsPerTarget ps) inventory
            in if alloc \<le> 0 then
                 (\<lparr>killed = False, shotsFired = 0, inventoryRemaining_e = inventory\<rparr>, g)
               else
                 (case barrage_loop 0 alloc pk g of (k, g') \<Rightarrow>
                    (\<lparr>killed = k, shotsFired = alloc,
                      inventoryRemaining_e = dsub inventory alloc\<rparr>, g')))
         else
           (let cap = min (maxShotsPerTarget ps) inventory
            in sls_loop 0 cap 0 inventory pk (pReengage ps) g))"

subsection \<open>Trial reliability\<close>

record TrialDegradation =
  pDetectTrack_trial :: real
  pkWarhead_trial :: real
  pkDecoy_trial :: real
  systemUp_d :: bool

definition applyTrialDegradation :: "params \<Rightarrow> rng \<Rightarrow> TrialDegradation \<times> rng" where
  "applyTrialDegradation ps g =
     (case bernoulli (pSystemUp ps) g of (up, g') \<Rightarrow>
        if up then
          (\<lparr>pDetectTrack_trial = pDetectTrack ps,
            pkWarhead_trial = pkWarhead ps,
            pkDecoy_trial = pkDecoy ps,
            systemUp_d = True\<rparr>, g')
        else
          (\<lparr>pDetectTrack_trial = clamp01 (pDetectTrack ps * detectDegradeFactor ps),
            pkWarhead_trial = clamp01 (pkWarhead ps * pkDegradeFactor ps),
            pkDecoy_trial = clamp01 (pkDecoy ps * pkDegradeFactor ps),
            systemUp_d = False\<rparr>, g'))"

subsection \<open>Core simulation\<close>

text \<open>
  The mutable locals of \<open>runOneTrial\<close> are held in the record the function returns, each
  under the name it is returned with; the local \<open>inventory\<close> is the field
  \<open>inventoryRemaining\<close>.
\<close>

record TrialResult =
  realWarheads :: int
  penetratedRealWarheads :: int
  interceptedRealWarheads :: int
  detectedObjects :: int
  detectedRealWarheads :: int
  truePositives :: int
  falseNegatives :: int
  falsePositives :: int
  shotsTotal :: int
  shotsAtTrueWarheads :: int
  shotsAtDecoys :: int
  inventoryRemaining :: int
  systemUp :: bool

text \<open>
  One iteration of \<open>for (const tgt of targets)\<close>, with the trial's operative detection
  and kill probabilities; each \<open>continue\<close> is a result of the function.
\<close>

definition processTarget ::
  "params \<Rightarrow> real \<Rightarrow> real \<Rightarrow> real \<Rightarrow> target \<Rightarrow> TrialResult \<Rightarrow> rng \<Rightarrow> TrialResult \<times> rng" where
  "processTarget ps pDetect pkW pkD tgt st g =
     (case bernoulli pDetect g of (detected, g1) \<Rightarrow>
        if \<not> detected then
          ((if kind tgt = ''warhead''
            then st\<lparr>penetratedRealWarheads := penetratedRealWarheads st + 1\<rparr> else st), g1)
        else
          (let st1 = st\<lparr>detectedObjects := detectedObjects st + 1\<rparr>;
               st2 = (if kind tgt = ''warhead''
                      then st1\<lparr>detectedRealWarheads := detectedRealWarheads st1 + 1\<rparr>
                      else st1)
           in case classifyTarget tgt ps g1 of (classifiedAsWarhead, g2) \<Rightarrow>
             (let st3 =
                (if kind tgt = ''warhead'' then
                   (if classifiedAsWarhead
                    then st2\<lparr>truePositives := truePositives st2 + 1\<rparr>
                    else st2\<lparr>falseNegatives := falseNegatives st2 + 1\<rparr>)
                 else
                   (if classifiedAsWarhead
                    then st2\<lparr>falsePositives := falsePositives st2 + 1\<rparr>
                    else st2))
              in if \<not> classifiedAsWarhead then
                   ((if kind tgt = ''warhead''
                     then st3\<lparr>penetratedRealWarheads := penetratedRealWarheads st3 + 1\<rparr>
                     else st3), g2)
                 else
                   (let engageParams = ps\<lparr>pkWarhead := pkW, pkDecoy := pkD\<rparr>
                    in case engageTarget tgt engageParams (inventoryRemaining st3) g2 of
                      (res, g3) \<Rightarrow>
                        (let st4 = st3\<lparr>inventoryRemaining := inventoryRemaining_e res\<rparr>;
                             st5 = st4\<lparr>shotsTotal := dadd (shotsTotal st4) (shotsFired res)\<rparr>;
                             st6 = (if kind tgt = ''warhead''
                                    then st5\<lparr>shotsAtTrueWarheads :=
                                               dadd (shotsAtTrueWarheads st5) (shotsFired res)\<rparr>
                                    else st5\<lparr>shotsAtDecoys :=
                                               dadd (shotsAtDecoys st5) (shotsFired res)\<rparr>);
                             st7 = (if kind tgt = ''warhead'' then
                                      (if killed res
                                       then st6\<lparr>interceptedRealWarheads :=
                                                  interceptedRealWarheads st6 + 1\<rparr>
                                       else st6\<lparr>penetratedRealWarheads :=
                                                  penetratedRealWarheads st6 + 1\<rparr>)
                                    else st6)
                         in (st7, g3))))))"

fun trialLoop ::
  "params \<Rightarrow> real \<Rightarrow> real \<Rightarrow> real \<Rightarrow> target list \<Rightarrow> TrialResult \<Rightarrow> rng \<Rightarrow> TrialResult \<times> rng" where
  "trialLoop ps pDetect pkW pkD [] st g = (st, g)"
| "trialLoop ps pDetect pkW pkD (tgt # rest) st g =
     (case processTarget ps pDetect pkW pkD tgt st g of (st', g') \<Rightarrow>
        trialLoop ps pDetect pkW pkD rest st' g')"

text \<open>The state of the locals when the loop of \<open>runOneTrial\<close> is entered.\<close>

definition trialStart :: "params \<Rightarrow> int \<Rightarrow> bool \<Rightarrow> TrialResult" where
  "trialStart ps rw up =
     \<lparr>realWarheads = rw,
      penetratedRealWarheads = 0,
      interceptedRealWarheads = 0,
      detectedObjects = 0,
      detectedRealWarheads = 0,
      truePositives = 0,
      falseNegatives = 0,
      falsePositives = 0,
      shotsTotal = 0,
      shotsAtTrueWarheads = 0,
      shotsAtDecoys = 0,
      inventoryRemaining = nInventory ps,
      systemUp = up\<rparr>"

definition runOneTrial :: "params \<Rightarrow> rng \<Rightarrow> TrialResult \<times> rng" where
  "runOneTrial ps g =
     (case generateTargets ps g of (sv, g1) \<Rightarrow>
      case applyTrialDegradation ps g1 of (d, g2) \<Rightarrow>
        trialLoop ps (pDetectTrack_trial d) (pkWarhead_trial d) (pkDecoy_trial d)
          (targets sv) (trialStart ps (realWarheads_g sv) (systemUp_d d)) g2)"

text \<open>
  The values the local \<open>inventory\<close> takes during the loop: its value when the loop is
  entered, then its value after each object, in processing order.
\<close>

fun inventoryTrace ::
  "params \<Rightarrow> real \<Rightarrow> real \<Rightarrow> real \<Rightarrow> target list \<Rightarrow> TrialResult \<Rightarrow> rng \<Rightarrow> int list" where
  "inventoryTrace ps pDetect pkW pkD [] st g = [inventoryRemaining st]"
| "inventoryTrace ps pDetect pkW pkD (tgt # rest) st g =
     inventoryRemaining st #
     (case processTarget ps pDetect pkW pkD tgt st g of (st', g') \<Rightarrow>
        inventoryTrace ps pDetect pkW pkD rest st' g')"

definition trialInventories :: "params \<Rightarrow> rng \<Rightarrow> int list" where
  "trialInventories ps g =
     (case generateTargets ps g of (sv, g1) \<Rightarrow>
      case applyTrialDegradation ps g1 of (d, g2) \<Rightarrow>
        inventoryTrace ps (pDetectTrack_trial d) (pkWarhead_trial d) (pkDecoy_trial d)
          (targets sv) (trialStart ps (realWarheads_g sv) (systemUp_d d)) g2)"

subsection \<open>Monte Carlo aggregation\<close>

text \<open>
  The per-metric arrays of \<open>runMonteCarlo\<close> and its local \<open>realWarheadsConst\<close>, which is
  \<open>null\<close> (\<open>None\<close>) until the first trial has run.
\<close>

record Samples =
  penReal :: "int list"
  intReal :: "int list"
  detObj :: "int list"
  detReal :: "int list"
  tp :: "int list"
  fn :: "int list"
  fp :: "int list"
  shotsTot :: "int list"
  shotsW :: "int list"
  shotsD :: "int list"
  invLeft :: "int list"
  systemUpFlags :: "int list"
  realWarheadsConst :: "int option"

definition noSamples :: Samples where
  "noSamples =
     \<lparr>penReal = [], intReal = [], detObj = [], detReal = [], tp = [], fn = [], fp = [],
      shotsTot = [], shotsW = [], shotsD = [], invLeft = [], systemUpFlags = [],
      realWarheadsConst = None\<rparr>"

definition record_trial :: "TrialResult \<Rightarrow> Samples \<Rightarrow> Samples" where
  "record_trial r acc =
     \<lparr>penReal = penReal acc @ [penetratedRealWarheads r],
      intReal = intReal acc @ [interceptedRealWarheads r],
      detObj = detObj acc @ [detectedObjects r],
      detReal = detReal acc @ [detectedRealWarheads r],
      tp = tp acc @ [truePositives r],
      fn = fn acc @ [falseNegatives r],
      fp = fp acc @ [falsePositives r],
      shotsTot = shotsTot acc @ [shotsTotal r],
      shotsW = shotsW acc @ [shotsAtTrueWarheads r],
      shotsD = shotsD acc @ [shotsAtDecoys r],
      invLeft = invLeft acc @ [inventoryRemaining r],
      systemUpFlags = systemUpFlags acc @ [if systemUp r then 1 else 0],
      realWarheadsConst =
        (if realWarheadsConst acc = None then Some (realWarheads r)
         else realWarheadsConst acc)\<rparr>"

function trials_loop :: "int \<Rightarrow> params \<Rightarrow> Samples \<Rightarrow> rng \<Rightarrow> Samples \<times> rng" where
  "trials_loop t ps acc g =
     (if t < nTrials ps then
        trials_loop (t + 1) ps (record_trial (fst (runOneTrial ps g)) acc)
          (snd (runOneTrial ps g))
      else (acc, g))"
  by pat_completeness auto
termination
  by (relation "measure (\<lambda>(t, ps, acc, g). nat (nTrials ps - t))") auto

record Summary =
  realWarheads_s :: "int option"
  meanPenReal :: jsnum
  p10PenReal :: jsnum
  medianPenReal :: jsnum
  p90PenReal :: jsnum
  meanIntReal :: jsnum
  meanDetObjects :: jsnum
  meanDetReal :: jsnum
  meanTP :: jsnum
  meanFN :: jsnum
  meanFP :: jsnum
  meanShotsTotal :: jsnum
  meanShotsWarheads :: jsnum
  meanShotsDecoys :: jsnum
  meanInventoryRemaining :: jsnum
  meanSystemUp :: jsnum
  meanPenRateReal :: jsnum

record MonteCarloRun =
  penReal_r :: "int list"
  intReal_r :: "int list"
  shotsTot_r :: "int list"
  fp_r :: "int list"
  summary :: Summary

text \<open>
  \<open>mean(penReal) / realWarheadsConst\<close>, evaluated only where the divisor is positive;
  a \<open>NaN\<close> dividend gives \<open>NaN\<close>.
\<close>

fun js_div :: "jsnum \<Rightarrow> int \<Rightarrow> jsnum" where
  "js_div (Num a) c = Num (a / real_of_int c)"
| "js_div _ c = NaN"

text \<open>\<open>realWarheadsConst > 0\<close>: \<open>null\<close> compares as \<open>0\<close>.\<close>

fun positive :: "int option \<Rightarrow> bool" where
  "positive None = False"
| "positive (Some c) = (c > 0)"

definition summarize :: "Samples \<Rightarrow> Summary" where
  "summarize acc =
     \<lparr>realWarheads_s = realWarheadsConst acc,
      meanPenReal = mean (map real_of_int (penReal acc)),
      p10PenReal = percentile (map real_of_int (penReal acc)) 10,
      medianPenReal = percentile (map real_of_int (penReal acc)) 50,
      p90PenReal = percentile (map real_of_int (penReal acc)) 90,
      meanIntReal = mean (map real_of_int (intReal acc)),
      meanDetObjects = mean (map real_of_int (detObj acc)),
      meanDetReal = mean (map real_of_int (detReal acc)),
      meanTP = mean (map real_of_int (tp acc)),
      meanFN = mean (map real_of_int (fn acc)),
      meanFP = mean (map real_of_int (fp acc)),
      meanShotsTotal = mean (map real_of_int (shotsTot acc)),
      meanShotsWarheads = mean (map real_of_int (shotsW acc)),
      meanShotsDecoys = mean (map real_of_int (shotsD acc)),
      meanInventoryRemaining = mean (map real_of_int (invLeft acc)),
      meanSystemUp = mean (map real_of_int (systemUpFlags acc)),
      meanPenRateReal =
        (if positive (realWarheadsConst acc)
         then js_div (mean (map real_of_int (penReal acc))) (the (realWarheadsConst acc))
         else Num 0)\<rparr>"

definition runMonteCarlo :: "params \<Rightarrow> rng \<Rightarrow> MonteCarloRun \<times> rng" where
  "runMonteCarlo ps g =
     (case trials_loop 0 ps noSamples g of (acc, g') \<Rightarrow>
        (\<lparr>penReal_r = penReal acc, intReal_r = intReal acc, shotsTot_r = shotsTot acc,
          fp_r = fp acc, summary = summarize acc\<rparr>, g'))"

text \<open>
  The precondition of the engine on its configuration: the ranges the caller
  (\<open>readParamsFromUI\<close>) clamps every field into.
\<close>

definition validConfig :: "params \<Rightarrow> bool" where
  "validConfig ps \<longleftrightarrow>
     0 \<le> nMissiles ps \<and> 1 \<le> mirvsPerMissile ps \<and> 0 \<le> decoysPerWarhead ps \<and>
     0 \<le> pDetectTrack ps \<and> pDetectTrack ps \<le> 1 \<and>
     0 \<le> pClassifyWarhead ps \<and> pClassifyWarhead ps \<le> 1 \<and>
     0 \<le> pFalseAlarmDecoy ps \<and> pFalseAlarmDecoy ps \<le> 1 \<and>
     0 \<le> shotsPerTarget ps \<and> 0 \<le> maxShotsPerTarget ps \<and>
     0 \<le> pReengage ps \<and> pReengage ps \<le> 1 \<and>
     0 \<le> pkWarhead ps \<and> pkWarhead ps \<le> 1 \<and>
     0 \<le> pkDecoy ps \<and> pkDecoy ps \<le> 1 \<and>
     0 \<le> nInventory ps \<and> 1 \<le> nTrials ps \<and>
     0 \<le> pSystemUp ps \<and> pSystemUp ps \<le> 1 \<and>
     0 \<le> detectDegradeFactor ps \<and> detectDegradeFactor ps \<le> 1 \<and>
     0 \<le> pkDegradeFactor ps \<and> pkDegradeFactor ps \<le> 1"

text \<open>
  The results of \<open>n\<close> successive trials on one entropy stream, each trial starting where
  the previous one stopped: the values \<open>r\<close> takes in the loop of \<open>runMonteCarlo\<close>.
\<close>

fun trialResults :: "nat \<Rightarrow> params \<Rightarrow> rng \<Rightarrow> TrialResult list" where
  "trialResults 0 ps g = []"
| "trialResults (Suc n) ps g =
     fst (runOneTrial ps g) # trialResults n ps (snd (runOneTrial ps g))"

subsection \<open>Example configurations\<close>

text \<open>
  The single-warhead scenario: one missile with one MIRV and no decoys, perfect detection
  and classification, barrage with one shot per target, one interceptor, one trial.
\<close>

definition scenario :: params where
  "scenario =
     \<lparr>nMissiles = 1, mirvsPerMissile = 1, decoysPerWarhead = 0,
      pDetectTrack = 1, pClassifyWarhead = 1, pFalseAlarmDecoy = 0,
      doctrineMode = ''barrage'', shotsPerTarget = 1, maxShotsPerTarget = 2,
      pReengage = 1, pkWarhead = 1, pkDecoy = 1,
      nInventory = 1, nTrials = 1,
      pSystemUp = 1, detectDegradeFactor = 1, pkDegradeFactor = 1\<rparr>"

text \<open>A raid of two missiles with two MIRVs each and one decoy per warhead.\<close>

definition raid :: params where
  "raid =
     \<lparr>nMissiles = 2, mirvsPerMissile = 2, decoysPerWarhead = 1,
      pDetectTrack = 9 / 10, pClassifyWarhead = 8 / 10, pFalseAlarmDecoy = 2 / 10,
      doctrineMode = ''sls'', shotsPerTarget = 2, maxShotsPerTarget = 2,
      pReengage = 1 / 2, pkWarhead = 7 / 10, pkDecoy = 7 / 10,
      nInventory = 5, nTrials = 2,
      pSystemUp = 9 / 10, detectDegradeFactor = 1 / 2, pkDegradeFactor = 1 / 2\<rparr>"

section \<open>Properties\<close>

declare barrage_loop.simps [simp del]
declare sls_loop.simps [simp del]
declare trials_loop.simps [simp del]
declare decimal.simps [simp del]

subsection \<open>Auxiliary facts\<close>

lemma bitlen_le_53: "\<bar>x\<bar> < 2 ^ 53 \<Longrightarrow> bitlen \<bar>x\<bar> \<le> 53"
  by (simp add: bitlen_le_iff_power)

lemma fl_below: "\<bar>x\<bar> < 2 ^ 53 \<Longrightarrow> fl x = x"
proof -
  assume a: "\<bar>x\<bar> < 2 ^ 53"
  have "nat (bitlen \<bar>x\<bar> - 53) = 0" using bitlen_le_53 [OF a] by simp
  then show ?thesis by (simp add: fl_def Let_def mult_sgn_abs)
qed

lemma bitlen_2_53: "bitlen 9007199254740992 = 54"
proof -
  have "bitlen 1 = 1" by (simp add: bitlen_alt_def)
  then show ?thesis using bitlen_pow2 [of 1 53] by simp
qed

lemma fl_2_53: "fl 9007199254740992 = 9007199254740992" "fl (- 9007199254740992) = - 9007199254740992"
  by (simp_all add: fl_def Let_def bitlen_2_53)

lemma fl_small: "\<bar>x\<bar> \<le> 2 ^ 53 \<Longrightarrow> fl x = x"
proof (cases "\<bar>x\<bar> < 2 ^ 53")
  case True
  then show ?thesis by (rule fl_below)
next
  case False
  assume "\<bar>x\<bar> \<le> 2 ^ 53"
  with False have "x = 9007199254740992 \<or> x = - 9007199254740992" by auto
  then show ?thesis using fl_2_53 by auto
qed

lemma fl_nonneg:
  assumes "0 \<le> x"
  shows "0 \<le> fl x"
proof -
  define u :: int where "u = 2 ^ nat (bitlen \<bar>x\<bar> - 53)"
  have upos: "0 < u" by (simp add: u_def)
  have q: "0 \<le> \<bar>x\<bar> div u" using upos by (simp add: pos_imp_zdiv_nonneg_iff)
  have "0 \<le> (if 2 * (\<bar>x\<bar> mod u) < u \<or> (2 * (\<bar>x\<bar> mod u) = u \<and> even (\<bar>x\<bar> div u))
             then \<bar>x\<bar> div u else \<bar>x\<bar> div u + 1) * u"
    using q upos by simp
  moreover have "0 \<le> sgn x" using assms by (simp add: sgn_if)
  ultimately show ?thesis
    unfolding fl_def Let_def u_def by (rule mult_nonneg_nonneg [rotated])
qed

lemma fl_dvd: "2 ^ nat (bitlen \<bar>x\<bar> - 53) dvd fl x"
  by (simp add: fl_def Let_def)

lemma bitlen_mono: "0 < x \<Longrightarrow> x \<le> y \<Longrightarrow> bitlen x \<le> bitlen y"
  by (simp add: bitlen_def floorlog_mono)

lemma fl_le_representable:
  assumes rep: "fl a = a" and x0: "0 \<le> x" and xa: "x \<le> a"
  shows "fl x \<le> a"
proof (cases "x = 0")
  case True
  then show ?thesis using x0 xa by (simp add: fl_def)
next
  case False
  then have xpos: "0 < x" using x0 by simp
  define u :: int where "u = 2 ^ nat (bitlen \<bar>x\<bar> - 53)"
  have upos: "0 < u" by (simp add: u_def)
  have "bitlen \<bar>x\<bar> \<le> bitlen \<bar>a\<bar>" using xpos xa by (intro bitlen_mono) simp_all
  then have "nat (bitlen \<bar>x\<bar> - 53) \<le> nat (bitlen \<bar>a\<bar> - 53)" by simp
  then have "u dvd 2 ^ nat (bitlen \<bar>a\<bar> - 53)"
    unfolding u_def by (rule le_imp_power_dvd)
  moreover have "(2::int) ^ nat (bitlen \<bar>a\<bar> - 53) dvd a"
    using fl_dvd [of a] rep by simp
  ultimately have ua: "u dvd a" by (rule dvd_trans)
  have flx: "fl x = (if 2 * (x mod u) < u \<or> (2 * (x mod u) = u \<and> even (x div u))
                    then x div u else x div u + 1) * u"
    using xpos by (simp add: fl_def Let_def u_def)
  show ?thesis
  proof (cases "x mod u = 0")
    case True
    then have "fl x = x div u * u" using upos by (simp add: flx)
    also have "\<dots> = x" using True by (simp add: mod_0_imp_dvd)
    finally show ?thesis using xa by simp
  next
    case nz: False
    obtain k where k: "a = u * k" using ua by (rule dvdE)
    have dm: "x div u * u \<le> x"
      using div_mult_mod_eq [of x u] pos_mod_sign [OF upos, of x] by linarith
    have "x div u < k"
    proof (rule ccontr)
      assume "\<not> x div u < k"
      then have "k \<le> x div u" by simp
      then have "u * k \<le> u * (x div u)" using upos by (simp add: mult_left_mono)
      also have "\<dots> \<le> x" using dm by (simp add: mult.commute)
      finally have "a \<le> x" using k by simp
      then have "x = a" using xa by simp
      then have "x mod u = 0" using ua by (simp add: mod_eq_0_iff_dvd)
      then show False using nz by simp
    qed
    then have "x div u + 1 \<le> k" by simp
    then have "(x div u + 1) * u \<le> k * u" using upos by (simp add: mult_right_mono)
    moreover have "x div u * u \<le> (x div u + 1) * u" using upos by (simp add: distrib_right)
    ultimately have "fl x \<le> k * u" unfolding flx by (simp split: if_splits)
    then show ?thesis using k by (simp add: mult.commute)
  qed
qed

lemma dsub_zero: "dsub a 0 = a"
  by (simp add: dsub_def fl_def)

lemma dsub_small: "\<bar>a - b\<bar> \<le> 2 ^ 53 \<Longrightarrow> dsub a b = a - b"
  by (simp add: dsub_def fl_small)

lemma dadd_small: "\<bar>a + b\<bar> \<le> 2 ^ 53 \<Longrightarrow> dadd a b = a + b"
  by (simp add: dadd_def fl_small)

lemma dsub_bounds:
  assumes "0 \<le> b" "b \<le> a"
  shows "0 \<le> dsub a b \<and> dsub a b \<le> a"
proof (cases "fl a = a \<and> fl b = b")
  case True
  then have "fl (a - b) \<le> a" using assms by (intro fl_le_representable) simp_all
  moreover have "0 \<le> fl (a - b)" using assms by (intro fl_nonneg) simp
  ultimately show ?thesis using True by (simp add: dsub_def)
next
  case False
  then show ?thesis using assms by (auto simp add: dsub_def)
qed

lemma bitlen_eqI: "0 < w \<Longrightarrow> 2 ^ nat (w - 1) \<le> x \<Longrightarrow> x < 2 ^ nat w \<Longrightarrow> bitlen x = w"
proof -
  assume w: "0 < w" and lo: "2 ^ nat (w - 1) \<le> x" and hi: "x < 2 ^ nat w"
  have "bitlen x \<le> w" using hi w by (simp add: bitlen_le_iff_power)
  moreover have "nat (w - 1) = nat w - 1" using w by simp
  then have "w \<le> bitlen x" using lo by (simp add: bitlen_ge_iff_power)
  ultimately show ?thesis by simp
qed

lemma bitlen_2_54_pred: "bitlen 18014398509481983 = 54"
  by (rule bitlen_eqI) simp_all

lemma bitlen_2_54: "bitlen 18014398509481984 = 55"
  by (rule bitlen_eqI) simp_all

lemma fl_2_54_m1: "fl 18014398509481983 = 18014398509481984"
  by (simp add: fl_def Let_def bitlen_2_54_pred)

lemma fl_2_54: "fl 18014398509481984 = 18014398509481984"
  by (simp add: fl_def Let_def bitlen_2_54)

lemma dsub_2_54: "dsub 18014398509481984 1 = 18014398509481984"
  by (simp add: dsub_def fl_2_54 fl_2_54_m1 fl_small)

lemma bernoulli_eq: "bernoulli p g = (shd g < p, stl g)"
  by (simp add: bernoulli_def randUniform_def)


lemma barrage_loop_killed:
  "fst (barrage_loop s alloc pk g) \<longleftrightarrow> (\<exists>k < nat (alloc - s). g !! k < pk)"
proof (induction s alloc pk g rule: barrage_loop.induct)
  case (1 s alloc pk g)
  show ?case
  proof (cases "s < alloc")
    case False
    then show ?thesis by (simp add: barrage_loop.simps [of s alloc pk g])
  next
    case True
    then have n: "nat (alloc - s) = Suc (nat (alloc - (s + 1)))" by simp
    show ?thesis
    proof (cases "shd g < pk")
      case hit: True
      have "g !! 0 < pk" using hit by simp
      then have "\<exists>k < nat (alloc - s). g !! k < pk" using n by (intro exI [of _ 0]) simp
      then show ?thesis using True hit
        by (simp add: barrage_loop.simps [of s alloc pk g] bernoulli_eq)
    next
      case miss: False
      have "fst (barrage_loop s alloc pk g) = fst (barrage_loop (s + 1) alloc pk (stl g))"
        using True miss by (simp add: barrage_loop.simps [of s alloc pk g] bernoulli_eq)
      also have "\<dots> \<longleftrightarrow> (\<exists>k < nat (alloc - (s + 1)). stl g !! k < pk)"
        using "1.IH" True miss by (simp add: bernoulli_eq)
      also have "\<dots> \<longleftrightarrow> (\<exists>k < nat (alloc - s). g !! k < pk)"
        using miss unfolding n by (auto simp: less_Suc_eq_0_disj)
      finally show ?thesis .
    qed
  qed
qed

lemma sls_loop_props:
  "fired \<le> shotsFired (fst (sls_loop s cap fired inventory pk pRe g)) \<and>
   shotsFired (fst (sls_loop s cap fired inventory pk pRe g)) \<le> fired + max 0 (cap - s) \<and>
   inventoryRemaining_e (fst (sls_loop s cap fired inventory pk pRe g)) =
     dsub inventory (shotsFired (fst (sls_loop s cap fired inventory pk pRe g)))"
proof (induction s cap fired inventory pk pRe g rule: sls_loop.induct)
  case (1 s cap fired inventory pk pRe g)
  show ?case
  proof (cases "s < cap")
    case False
    then show ?thesis by (simp add: sls_loop.simps [of s cap fired inventory pk pRe g])
  next
    case True
    show ?thesis
    proof (cases "shd g < pk")
      case hit: True
      then show ?thesis using True
        by (simp add: sls_loop.simps [of s cap fired inventory pk pRe g] bernoulli_eq)
    next
      case miss: False
      show ?thesis
      proof (cases "shd (stl g) < pRe")
        case False
        then show ?thesis using True miss
          by (simp add: sls_loop.simps [of s cap fired inventory pk pRe g] bernoulli_eq)
      next
        case re: True
        have eq: "sls_loop s cap fired inventory pk pRe g =
                  sls_loop (s + 1) cap (fired + 1) inventory pk pRe (stl (stl g))"
          using True miss re
          by (simp add: sls_loop.simps [of s cap fired inventory pk pRe g] bernoulli_eq)
        have ih: "fired + 1 \<le> shotsFired (fst (sls_loop (s + 1) cap (fired + 1) inventory pk pRe (stl (stl g)))) \<and>
          shotsFired (fst (sls_loop (s + 1) cap (fired + 1) inventory pk pRe (stl (stl g)))) \<le> fired + 1 + max 0 (cap - (s + 1)) \<and>
          inventoryRemaining_e (fst (sls_loop (s + 1) cap (fired + 1) inventory pk pRe (stl (stl g)))) =
            dsub inventory (shotsFired (fst (sls_loop (s + 1) cap (fired + 1) inventory pk pRe (stl (stl g)))))"
          using "1.IH" True miss re by (simp add: bernoulli_eq)
        show ?thesis unfolding eq using ih True by auto
      qed
    qed
  qed
qed

lemma sls_loop_kill:
  assumes "killed (fst (sls_loop s cap fired inventory pk pRe g))"
  shows "\<exists>m. shotsFired (fst (sls_loop s cap fired inventory pk pRe g)) = fired + int (Suc m) \<and>
             g !! (2 * m) < pk \<and>
             snd (sls_loop s cap fired inventory pk pRe g) = sdrop (2 * m + 1) g \<and>
             (\<forall>j < m. \<not> g !! (2 * j) < pk \<and> g !! (2 * j + 1) < pRe)"
  using assms
proof (induction s cap fired inventory pk pRe g rule: sls_loop.induct)
  case (1 s cap fired inventory pk pRe g)
  show ?case
  proof (cases "s < cap")
    case False
    then show ?thesis using "1.prems" by (simp add: sls_loop.simps [of s cap fired inventory pk pRe g])
  next
    case True
    show ?thesis
    proof (cases "shd g < pk")
      case hit: True
      then show ?thesis using True
        by (intro exI [of _ 0]) (simp add: sls_loop.simps [of s cap fired inventory pk pRe g] bernoulli_eq)
    next
      case miss: False
      show ?thesis
      proof (cases "shd (stl g) < pRe")
        case False
        then show ?thesis using True miss "1.prems"
          by (simp add: sls_loop.simps [of s cap fired inventory pk pRe g] bernoulli_eq)
      next
        case re: True
        have eq: "sls_loop s cap fired inventory pk pRe g =
                  sls_loop (s + 1) cap (fired + 1) inventory pk pRe (stl (stl g))"
          using True miss re
          by (simp add: sls_loop.simps [of s cap fired inventory pk pRe g] bernoulli_eq)
        have "\<exists>m. shotsFired (fst (sls_loop (s + 1) cap (fired + 1) inventory pk pRe (stl (stl g)))) = fired + 1 + int (Suc m) \<and>
             stl (stl g) !! (2 * m) < pk \<and>
             snd (sls_loop (s + 1) cap (fired + 1) inventory pk pRe (stl (stl g))) = sdrop (2 * m + 1) (stl (stl g)) \<and>
             (\<forall>j < m. \<not> stl (stl g) !! (2 * j) < pk \<and> stl (stl g) !! (2 * j + 1) < pRe)"
          using "1.IH" True miss re "1.prems" eq by (simp add: bernoulli_eq)
        then obtain m where m:
          "shotsFired (fst (sls_loop (s + 1) cap (fired + 1) inventory pk pRe (stl (stl g)))) = fired + 1 + int (Suc m)"
          "stl (stl g) !! (2 * m) < pk"
          "snd (sls_loop (s + 1) cap (fired + 1) inventory pk pRe (stl (stl g))) = sdrop (2 * m + 1) (stl (stl g))"
          "\<forall>j < m. \<not> stl (stl g) !! (2 * j) < pk \<and> stl (stl g) !! (2 * j + 1) < pRe"
          by blast
        have a: "\<forall>j < Suc m. \<not> g !! (2 * j) < pk \<and> g !! (2 * j + 1) < pRe"
        proof (intro allI impI)
          fix j assume "j < Suc m"
          show "\<not> g !! (2 * j) < pk \<and> g !! (2 * j + 1) < pRe"
          proof (cases j)
            case 0
            then show ?thesis using miss re by simp
          next
            case (Suc j')
            then have "j' < m" using \<open>j < Suc m\<close> by simp
            then show ?thesis using m(4) Suc by simp
          qed
        qed
        show ?thesis unfolding eq
          using m(1,2,3) a by (intro exI [of _ "Suc m"]) simp
      qed
    qed
  qed
qed


lemma sls_loop_miss:
  assumes "\<not> killed (fst (sls_loop s cap fired inventory pk pRe g))"
  shows "\<exists>n. shotsFired (fst (sls_loop s cap fired inventory pk pRe g)) = fired + int n \<and>
             int n \<le> max 0 (cap - s) \<and>
             snd (sls_loop s cap fired inventory pk pRe g) = sdrop (2 * n) g \<and>
             (\<forall>j < n. \<not> g !! (2 * j) < pk) \<and>
             (\<forall>j. Suc j < n \<longrightarrow> g !! (2 * j + 1) < pRe) \<and>
             (int n = max 0 (cap - s) \<or> (0 < n \<and> \<not> g !! (2 * n - 1) < pRe))"
  using assms
proof (induction s cap fired inventory pk pRe g rule: sls_loop.induct)
  case (1 s cap fired inventory pk pRe g)
  show ?case
  proof (cases "s < cap")
    case False
    then show ?thesis
      by (intro exI [of _ 0]) (simp add: sls_loop.simps [of s cap fired inventory pk pRe g])
  next
    case True
    show ?thesis
    proof (cases "shd g < pk")
      case hit: True
      then show ?thesis using True "1.prems"
        by (simp add: sls_loop.simps [of s cap fired inventory pk pRe g] bernoulli_eq)
    next
      case miss: False
      show ?thesis
      proof (cases "shd (stl g) < pRe")
        case False
        have "g !! Suc 0 = shd (stl g)" "sdrop 2 g = stl (stl g)"
          by (simp_all add: numeral_2_eq_2)
        then show ?thesis using True miss False
          by (intro exI [of _ "Suc 0"])
            (simp add: sls_loop.simps [of s cap fired inventory pk pRe g] bernoulli_eq)
      next
        case re: True
        have eq: "sls_loop s cap fired inventory pk pRe g =
                  sls_loop (s + 1) cap (fired + 1) inventory pk pRe (stl (stl g))"
          using True miss re
          by (simp add: sls_loop.simps [of s cap fired inventory pk pRe g] bernoulli_eq)
        have "\<exists>n. shotsFired (fst (sls_loop (s + 1) cap (fired + 1) inventory pk pRe (stl (stl g)))) =
                 fired + 1 + int n \<and>
             int n \<le> max 0 (cap - (s + 1)) \<and>
             snd (sls_loop (s + 1) cap (fired + 1) inventory pk pRe (stl (stl g))) =
               sdrop (2 * n) (stl (stl g)) \<and>
             (\<forall>j < n. \<not> stl (stl g) !! (2 * j) < pk) \<and>
             (\<forall>j. Suc j < n \<longrightarrow> stl (stl g) !! (2 * j + 1) < pRe) \<and>
             (int n = max 0 (cap - (s + 1)) \<or> (0 < n \<and> \<not> stl (stl g) !! (2 * n - 1) < pRe))"
          using "1.IH" True miss re "1.prems" eq by (simp add: bernoulli_eq)
        then obtain n where n:
          "shotsFired (fst (sls_loop (s + 1) cap (fired + 1) inventory pk pRe (stl (stl g)))) =
             fired + 1 + int n"
          "int n \<le> max 0 (cap - (s + 1))"
          "snd (sls_loop (s + 1) cap (fired + 1) inventory pk pRe (stl (stl g))) =
             sdrop (2 * n) (stl (stl g))"
          "\<forall>j < n. \<not> stl (stl g) !! (2 * j) < pk"
          "\<forall>j. Suc j < n \<longrightarrow> stl (stl g) !! (2 * j + 1) < pRe"
          "int n = max 0 (cap - (s + 1)) \<or> (0 < n \<and> \<not> stl (stl g) !! (2 * n - 1) < pRe)"
          by blast
        have a: "\<forall>j < Suc n. \<not> g !! (2 * j) < pk"
        proof (intro allI impI)
          fix j assume j: "j < Suc n"
          show "\<not> g !! (2 * j) < pk"
          proof (cases j)
            case 0
            then show ?thesis using miss by simp
          next
            case (Suc j')
            then show ?thesis using n(4) j by simp
          qed
        qed
        have b: "\<forall>j. Suc j < Suc n \<longrightarrow> g !! (2 * j + 1) < pRe"
        proof (intro allI impI)
          fix j assume j: "Suc j < Suc n"
          show "g !! (2 * j + 1) < pRe"
          proof (cases j)
            case 0
            then show ?thesis using re by simp
          next
            case (Suc j')
            then show ?thesis using n(5) j by simp
          qed
        qed
        have c: "int (Suc n) = max 0 (cap - s) \<or> (0 < Suc n \<and> \<not> g !! (2 * Suc n - 1) < pRe)"
        proof (cases "int n = max 0 (cap - (s + 1))")
          case True
          then show ?thesis using \<open>s < cap\<close> by simp
        next
          case False
          then have f: "0 < n" "\<not> stl (stl g) !! (2 * n - 1) < pRe" using n(6) by blast+
          obtain k where k: "n = Suc k" using f(1) by (cases n) simp_all
          have "g !! (2 * Suc n - 1) = stl (stl g) !! (2 * n - 1)" by (simp add: k)
          then show ?thesis using f(2) by simp
        qed
        have d: "int (Suc n) \<le> max 0 (cap - s)" using n(2) \<open>s < cap\<close> by simp
        show ?thesis unfolding eq
          using n(1,3) a b c d by (intro exI [of _ "Suc n"]) simp
      qed
    qed
  qed
qed

lemma engage_account:
  "inventoryRemaining_e (fst (engageTarget tgt ps inventory g)) =
     dsub inventory (shotsFired (fst (engageTarget tgt ps inventory g)))"
  using sls_loop_props [where s = 0 and fired = 0 and inventory = inventory]
  by (simp add: engageTarget_def Let_def dsub_zero split: prod.splits)

lemma engage_shots_bounds:
  "0 \<le> shotsFired (fst (engageTarget tgt ps inventory g)) \<and>
   shotsFired (fst (engageTarget tgt ps inventory g)) \<le> max 0 inventory"
proof -
  let ?pk = "if kind tgt = ''warhead'' then pkWarhead ps else pkDecoy ps"
  have "0 \<le> shotsFired (fst (sls_loop 0 (min (maxShotsPerTarget ps) inventory) 0 inventory ?pk (pReengage ps) g)) \<and>
        shotsFired (fst (sls_loop 0 (min (maxShotsPerTarget ps) inventory) 0 inventory ?pk (pReengage ps) g))
          \<le> 0 + max 0 (min (maxShotsPerTarget ps) inventory - 0)"
    using sls_loop_props [where s = 0 and fired = 0 and inventory = inventory
        and cap = "min (maxShotsPerTarget ps) inventory" and pk = ?pk and pRe = "pReengage ps"
        and g = g]
    by blast
  then show ?thesis
    by (auto simp add: engageTarget_def Let_def split: prod.splits)
qed

lemma processTarget_fates:
  "penetratedRealWarheads (fst (processTarget ps pd pw pk tgt st g)) +
   interceptedRealWarheads (fst (processTarget ps pd pw pk tgt st g)) =
   penetratedRealWarheads st + interceptedRealWarheads st +
     (if kind tgt = ''warhead'' then 1 else 0)"
  by (simp add: processTarget_def Let_def split: prod.splits)

lemma processTarget_realWarheads:
  "realWarheads (fst (processTarget ps pd pw pk tgt st g)) = realWarheads st"
  by (simp add: processTarget_def Let_def split: prod.splits)

lemma processTarget_shots:
  assumes "0 \<le> inventoryRemaining st" and "0 \<le> shotsTotal st"
    and "inventoryRemaining st + shotsTotal st \<le> 2 ^ 53"
  shows "inventoryRemaining (fst (processTarget ps pd pw pk tgt st g)) +
         shotsTotal (fst (processTarget ps pd pw pk tgt st g)) =
         inventoryRemaining st + shotsTotal st \<and>
         0 \<le> inventoryRemaining (fst (processTarget ps pd pw pk tgt st g)) \<and>
         0 \<le> shotsTotal (fst (processTarget ps pd pw pk tgt st g))"
proof -
  have "inventoryRemaining_e (fst (engageTarget tgt (ps\<lparr>pkWarhead := pw, pkDecoy := pk\<rparr>) (inventoryRemaining st) g')) =
          inventoryRemaining st -
          shotsFired (fst (engageTarget tgt (ps\<lparr>pkWarhead := pw, pkDecoy := pk\<rparr>) (inventoryRemaining st) g')) \<and>
        dadd (shotsTotal st)
          (shotsFired (fst (engageTarget tgt (ps\<lparr>pkWarhead := pw, pkDecoy := pk\<rparr>) (inventoryRemaining st) g'))) =
          shotsTotal st +
          shotsFired (fst (engageTarget tgt (ps\<lparr>pkWarhead := pw, pkDecoy := pk\<rparr>) (inventoryRemaining st) g')) \<and>
        0 \<le> shotsFired (fst (engageTarget tgt (ps\<lparr>pkWarhead := pw, pkDecoy := pk\<rparr>) (inventoryRemaining st) g')) \<and>
        shotsFired (fst (engageTarget tgt (ps\<lparr>pkWarhead := pw, pkDecoy := pk\<rparr>) (inventoryRemaining st) g'))
          \<le> inventoryRemaining st" for g'
  proof -
    let ?f = "shotsFired (fst (engageTarget tgt (ps\<lparr>pkWarhead := pw, pkDecoy := pk\<rparr>) (inventoryRemaining st) g'))"
    have f: "0 \<le> ?f" "?f \<le> inventoryRemaining st"
      using assms(1) engage_shots_bounds [of tgt "ps\<lparr>pkWarhead := pw, pkDecoy := pk\<rparr>" "inventoryRemaining st" g']
      by simp_all
    have "\<bar>inventoryRemaining st - ?f\<bar> \<le> 2 ^ 53" using f assms by simp
    then have "dsub (inventoryRemaining st) ?f = inventoryRemaining st - ?f" by (rule dsub_small)
    moreover have "\<bar>shotsTotal st + ?f\<bar> \<le> 2 ^ 53" using f assms by simp
    then have "dadd (shotsTotal st) ?f = shotsTotal st + ?f" by (rule dadd_small)
    ultimately show ?thesis using f by (simp add: engage_account)
  qed
  then show ?thesis using assms(1,2)
    by (simp add: processTarget_def Let_def case_prod_beta)
qed

lemma processTarget_inventory:
  assumes "0 \<le> inventoryRemaining st"
  shows "0 \<le> inventoryRemaining (fst (processTarget ps pd pw pk tgt st g)) \<and>
         inventoryRemaining (fst (processTarget ps pd pw pk tgt st g)) \<le> inventoryRemaining st"
proof -
  have "\<And>g'. 0 \<le> inventoryRemaining_e (fst (engageTarget tgt (ps\<lparr>pkWarhead := pw, pkDecoy := pk\<rparr>) (inventoryRemaining st) g')) \<and>
     inventoryRemaining_e (fst (engageTarget tgt (ps\<lparr>pkWarhead := pw, pkDecoy := pk\<rparr>) (inventoryRemaining st) g')) \<le> inventoryRemaining st"
    using assms engage_shots_bounds [of tgt "ps\<lparr>pkWarhead := pw, pkDecoy := pk\<rparr>" "inventoryRemaining st"]
    by (simp add: engage_account dsub_bounds)
  then show ?thesis using assms
    by (simp add: processTarget_def Let_def case_prod_beta)
qed


lemma trialLoop_fates:
  "penetratedRealWarheads (fst (trialLoop ps pd pw pk tgts st g)) +
   interceptedRealWarheads (fst (trialLoop ps pd pw pk tgts st g)) =
   penetratedRealWarheads st + interceptedRealWarheads st +
     int (length (filter (\<lambda>t. kind t = ''warhead'') tgts))"
proof (induction tgts arbitrary: st g)
  case Nil
  then show ?case by simp
next
  case (Cons tgt rest)
  show ?case
    using Cons.IH [of "fst (processTarget ps pd pw pk tgt st g)" "snd (processTarget ps pd pw pk tgt st g)"]
      processTarget_fates [of ps pd pw pk tgt st g]
    by (simp add: case_prod_beta)
qed

lemma trialLoop_realWarheads:
  "realWarheads (fst (trialLoop ps pd pw pk tgts st g)) = realWarheads st"
  by (induction tgts arbitrary: st g) (simp_all add: case_prod_beta processTarget_realWarheads)

lemma trialLoop_shots:
  assumes "0 \<le> inventoryRemaining st" and "0 \<le> shotsTotal st"
    and "inventoryRemaining st + shotsTotal st \<le> 2 ^ 53"
  shows "inventoryRemaining (fst (trialLoop ps pd pw pk tgts st g)) +
         shotsTotal (fst (trialLoop ps pd pw pk tgts st g)) =
         inventoryRemaining st + shotsTotal st"
  using assms
proof (induction tgts arbitrary: st g)
  case Nil
  then show ?case by simp
next
  case (Cons tgt rest)
  let ?st' = "fst (processTarget ps pd pw pk tgt st g)"
  let ?g' = "snd (processTarget ps pd pw pk tgt st g)"
  have step: "inventoryRemaining ?st' + shotsTotal ?st' = inventoryRemaining st + shotsTotal st \<and>
              0 \<le> inventoryRemaining ?st' \<and> 0 \<le> shotsTotal ?st'"
    using Cons.prems by (rule processTarget_shots)
  then have "inventoryRemaining (fst (trialLoop ps pd pw pk rest ?st' ?g')) +
             shotsTotal (fst (trialLoop ps pd pw pk rest ?st' ?g')) =
             inventoryRemaining ?st' + shotsTotal ?st'"
    using Cons.prems(3) by (intro Cons.IH) simp_all
  then show ?case using step by (simp add: case_prod_beta)
qed

lemma inventoryTrace_nonempty: "inventoryTrace ps pd pw pk tgts st g \<noteq> []"
  by (cases tgts) simp_all

lemma inventoryTrace_last:
  "last (inventoryTrace ps pd pw pk tgts st g) =
   inventoryRemaining (fst (trialLoop ps pd pw pk tgts st g))"
  by (induction tgts arbitrary: st g) (simp_all add: case_prod_beta inventoryTrace_nonempty)

lemma inventoryTrace_hd: "hd (inventoryTrace ps pd pw pk tgts st g) = inventoryRemaining st"
  by (cases tgts) simp_all

lemma inventoryTrace_length: "length (inventoryTrace ps pd pw pk tgts st g) = Suc (length tgts)"
  by (induction tgts arbitrary: st g) (simp_all add: case_prod_beta)

lemma inventoryTrace_bounds:
  "0 \<le> inventoryRemaining st \<Longrightarrow>
   \<forall>x \<in> set (inventoryTrace ps pd pw pk tgts st g). 0 \<le> x \<and> x \<le> inventoryRemaining st"
proof (induction tgts arbitrary: st g)
  case Nil
  then show ?case by simp
next
  case (Cons tgt rest)
  let ?st' = "fst (processTarget ps pd pw pk tgt st g)"
  let ?g' = "snd (processTarget ps pd pw pk tgt st g)"
  have step: "0 \<le> inventoryRemaining ?st' \<and> inventoryRemaining ?st' \<le> inventoryRemaining st"
    using processTarget_inventory [OF Cons.prems] by blast
  then have "\<forall>x \<in> set (inventoryTrace ps pd pw pk rest ?st' ?g'). 0 \<le> x \<and> x \<le> inventoryRemaining ?st'"
    using Cons.IH by blast
  then show ?case using step Cons.prems by (auto simp add: case_prod_beta)
qed

lemma inventoryTrace_sorted:
  "0 \<le> inventoryRemaining st \<Longrightarrow>
   sorted_wrt (\<lambda>a b. b \<le> a) (inventoryTrace ps pd pw pk tgts st g)"
proof (induction tgts arbitrary: st g)
  case Nil
  then show ?case by simp
next
  case (Cons tgt rest)
  let ?st' = "fst (processTarget ps pd pw pk tgt st g)"
  let ?g' = "snd (processTarget ps pd pw pk tgt st g)"
  have step: "0 \<le> inventoryRemaining ?st' \<and> inventoryRemaining ?st' \<le> inventoryRemaining st"
    using processTarget_inventory [OF Cons.prems] by blast
  have "\<forall>x \<in> set (inventoryTrace ps pd pw pk rest ?st' ?g'). 0 \<le> x \<and> x \<le> inventoryRemaining ?st'"
    using inventoryTrace_bounds step by blast
  moreover have "sorted_wrt (\<lambda>a b. b \<le> a) (inventoryTrace ps pd pw pk rest ?st' ?g')"
    using Cons.IH step by blast
  ultimately show ?case using step by (auto simp add: case_prod_beta)
qed

lemma validRng_stl: "validRng g \<Longrightarrow> validRng (stl g)"
  by (auto simp add: validRng_def dest: stl_sset)

lemma validRng_shd: "validRng g \<Longrightarrow> 0 \<le> shd g \<and> shd g < 1"
  by (simp add: validRng_def shd_sset)

lemma floor_index_bound:
  fixes u :: real
  assumes "0 \<le> u" "u < 1"
  shows "nat \<lfloor>u * (real (Suc i) + 1)\<rfloor> \<le> Suc i"
proof -
  have "u * (real (Suc i) + 1) < real (Suc i) + 1"
    using assms by (simp add: mult_less_cancel_right1)
  then have "\<lfloor>u * (real (Suc i) + 1)\<rfloor> < int (Suc i) + 1"
    by (simp add: floor_less_iff)
  then show ?thesis by linarith
qed

lemma shuffle_loop_mset:
  "validRng g \<Longrightarrow> i < length arr \<Longrightarrow> mset (fst (shuffle_loop i arr g)) = mset arr"
proof (induction i arbitrary: arr g)
  case 0
  then show ?case by simp
next
  case (Suc i)
  let ?j = "nat \<lfloor>shd g * (real (Suc i) + 1)\<rfloor>"
  let ?arr' = "arr[Suc i := arr ! ?j, ?j := arr ! Suc i]"
  have j: "?j < length arr"
    using floor_index_bound [of "shd g" i] validRng_shd [OF Suc.prems(1)] Suc.prems(2) by linarith
  have m: "mset ?arr' = mset arr"
    using j Suc.prems(2) by (simp add: mset_swap)
  have "mset (fst (shuffle_loop i ?arr' (stl g))) = mset ?arr'"
    using Suc.IH [of "stl g" ?arr'] validRng_stl [OF Suc.prems(1)] Suc.prems(2) by simp
  then show ?case using m by (simp add: randUniform_def Let_def)
qed

lemma shuffle_mset: "validRng g \<Longrightarrow> mset (fst (shuffle arr g)) = mset arr"
proof (cases "arr = []")
  case True
  then show ?thesis by (simp add: shuffle_def)
next
  case False
  assume "validRng g"
  then show ?thesis using False by (simp add: shuffle_def shuffle_loop_mset)
qed


lemma generate_counts:
  "realWarheads_g (fst (generateTargets ps g)) = nMissiles ps * mirvsPerMissile ps"
  "decoys (fst (generateTargets ps g)) =
     nMissiles ps * mirvsPerMissile ps * decoysPerWarhead ps"
  by (simp_all add: generateTargets_def Let_def case_prod_beta)

lemma generate_targets:
  "targets (fst (generateTargets ps g)) =
     fst (shuffle
       (map (\<lambda>w. \<lparr>kind = ''warhead'', ident = ''W'' @ decimal w\<rparr>)
             [0..<nat (nMissiles ps * mirvsPerMissile ps)] @
        map (\<lambda>d. \<lparr>kind = ''decoy'', ident = ''D'' @ decimal d\<rparr>)
             [0..<nat (nMissiles ps * mirvsPerMissile ps * decoysPerWarhead ps)]) g)"
  by (simp add: generateTargets_def Let_def case_prod_beta)

lemma generate_mset:
  assumes "validRng g"
  shows "mset (targets (fst (generateTargets ps g))) =
     mset (map (\<lambda>w. \<lparr>kind = ''warhead'', ident = ''W'' @ decimal w\<rparr>)
             [0..<nat (nMissiles ps * mirvsPerMissile ps)] @
           map (\<lambda>d. \<lparr>kind = ''decoy'', ident = ''D'' @ decimal d\<rparr>)
             [0..<nat (nMissiles ps * mirvsPerMissile ps * decoysPerWarhead ps)])"
  by (simp only: generate_targets shuffle_mset [OF assms])

lemma generate_kinds:
  assumes "validRng g"
  shows "mset (map kind (targets (fst (generateTargets ps g)))) =
     replicate_mset (nat (nMissiles ps * mirvsPerMissile ps)) ''warhead'' +
     replicate_mset (nat (nMissiles ps * mirvsPerMissile ps * decoysPerWarhead ps)) ''decoy''"
proof -
  let ?ws = "map (\<lambda>w. \<lparr>kind = ''warhead'', ident = ''W'' @ decimal w\<rparr>)
             [0..<nat (nMissiles ps * mirvsPerMissile ps)]"
  let ?ds = "map (\<lambda>d. \<lparr>kind = ''decoy'', ident = ''D'' @ decimal d\<rparr>)
             [0..<nat (nMissiles ps * mirvsPerMissile ps * decoysPerWarhead ps)]"
  have "mset (map kind (targets (fst (generateTargets ps g)))) =
        image_mset kind (mset (targets (fst (generateTargets ps g))))"
    by (simp only: mset_map)
  also have "\<dots> = image_mset kind (mset (?ws @ ?ds))"
    by (simp only: generate_mset [OF assms])
  also have "\<dots> = mset (map kind ?ws @ map kind ?ds)"
    by (metis mset_map map_append)
  also have "map kind ?ws = replicate (nat (nMissiles ps * mirvsPerMissile ps)) ''warhead''"
    by (simp add: comp_def map_replicate_const)
  also have "map kind ?ds =
      replicate (nat (nMissiles ps * mirvsPerMissile ps * decoysPerWarhead ps)) ''decoy''"
    by (simp add: comp_def map_replicate_const)
  finally show ?thesis by (simp only: mset_append mset_replicate)
qed

lemma generate_warheads:
  assumes "validRng g"
  shows "length (filter (\<lambda>t. kind t = ''warhead'') (targets (fst (generateTargets ps g)))) =
         nat (nMissiles ps * mirvsPerMissile ps)"
proof -
  have "length (filter (\<lambda>t. kind t = ''warhead'') (targets (fst (generateTargets ps g)))) =
        length (filter (\<lambda>k. k = ''warhead'') (map kind (targets (fst (generateTargets ps g)))))"
    by (simp add: filter_map comp_def)
  also have "\<dots> = size (filter_mset (\<lambda>k. k = ''warhead'') (mset (map kind (targets (fst (generateTargets ps g))))))"
    by (simp only: mset_filter [symmetric] size_mset)
  also have "\<dots> = nat (nMissiles ps * mirvsPerMissile ps)"
    by (simp only: generate_kinds [OF assms]) (simp add: filter_eq_replicate_mset)
  finally show ?thesis .
qed

lemma trials_loop_fold:
  "fst (trials_loop t ps acc g) =
   foldl (\<lambda>a r. record_trial r a) acc (trialResults (nat (nTrials ps - t)) ps g)"
proof (induction t ps acc g rule: trials_loop.induct)
  case (1 t ps acc g)
  show ?case
  proof (cases "t < nTrials ps")
    case False
    then show ?thesis by (simp add: trials_loop.simps [of t ps acc g])
  next
    case True
    then have n: "nat (nTrials ps - t) = Suc (nat (nTrials ps - (t + 1)))" by simp
    show ?thesis
      using True "1.IH" unfolding n
      by (simp add: trials_loop.simps [of t ps acc g])
  qed
qed

lemma fold_penReal:
  "penReal (foldl (\<lambda>a r. record_trial r a) acc rs) =
   penReal acc @ map penetratedRealWarheads rs"
  by (induction rs arbitrary: acc) (simp_all add: record_trial_def)

lemma fold_realWarheadsConst:
  "realWarheadsConst (foldl (\<lambda>a r. record_trial r a) acc rs) =
   (case realWarheadsConst acc of
      Some c \<Rightarrow> Some c
    | None \<Rightarrow> (case rs of [] \<Rightarrow> None | r # _ \<Rightarrow> Some (realWarheads r)))"
  by (induction rs arbitrary: acc) (auto simp add: record_trial_def split: option.splits list.splits)

lemma runOneTrial_realWarheads:
  "realWarheads (fst (runOneTrial ps g)) = nMissiles ps * mirvsPerMissile ps"
  by (simp add: runOneTrial_def case_prod_beta trialLoop_realWarheads trialStart_def
      generate_counts)

lemma trialResults_realWarheads:
  "r \<in> set (trialResults n ps g) \<Longrightarrow> realWarheads r = nMissiles ps * mirvsPerMissile ps"
  by (induction n arbitrary: g) (auto simp add: runOneTrial_realWarheads)

lemma trialResults_length: "length (trialResults n ps g) = n"
  by (induction n arbitrary: g) simp_all

lemma foldl_plus_sum_list: "foldl (+) a xs = a + sum_list (xs :: real list)"
  by (induction xs arbitrary: a) simp_all

lemma mean_nonempty: "xs \<noteq> [] \<Longrightarrow> mean xs = Num (sum_list xs / real (length xs))"
  by (simp add: mean_def foldl_plus_sum_list)

subsection \<open>Evaluations used as witnesses\<close>

lemma scenario3_trace: "trialInventories (scenario\<lparr>nInventory := 3\<rparr>) (sconst (1 / 2)) = [3, 2]"
  by (simp add: trialInventories_def generateTargets_def shuffle_def applyTrialDegradation_def
      scenario_def bernoulli_eq case_prod_beta Let_def trialStart_def processTarget_def
      classifyTarget_def engageTarget_def barrage_loop.simps dsub_small dadd_small)

lemma scenario_2_53_trial:
  "inventoryRemaining (fst (runOneTrial (scenario\<lparr>nInventory := 9007199254740992\<rparr>)
     (sconst (1 / 2)))) = 9007199254740991 \<and>
   shotsTotal (fst (runOneTrial (scenario\<lparr>nInventory := 9007199254740992\<rparr>)
     (sconst (1 / 2)))) = 1"
  by (simp add: runOneTrial_def generateTargets_def shuffle_def applyTrialDegradation_def
      scenario_def bernoulli_eq case_prod_beta Let_def trialStart_def processTarget_def
      classifyTarget_def engageTarget_def barrage_loop.simps dsub_small dadd_small)

lemma scenario_2_54_trial:
  "inventoryRemaining (fst (runOneTrial (scenario\<lparr>nInventory := 18014398509481984\<rparr>)
     (sconst (1 / 2)))) = 18014398509481984 \<and>
   shotsTotal (fst (runOneTrial (scenario\<lparr>nInventory := 18014398509481984\<rparr>)
     (sconst (1 / 2)))) = 1"
  by (simp add: runOneTrial_def generateTargets_def shuffle_def applyTrialDegradation_def
      scenario_def bernoulli_eq case_prod_beta Let_def trialStart_def processTarget_def
      classifyTarget_def engageTarget_def barrage_loop.simps dsub_2_54 dadd_small)

lemma two_warheads_trial:
  "penetratedRealWarheads (fst (runOneTrial (scenario\<lparr>nMissiles := 2\<rparr>) (sconst (1 / 2)))) = 1"
  by (simp add: runOneTrial_def generateTargets_def shuffle_def applyTrialDegradation_def
      scenario_def bernoulli_eq randUniform_def case_prod_beta Let_def trialStart_def
      processTarget_def classifyTarget_def engageTarget_def barrage_loop.simps
      dsub_small dadd_small upt_conv_Cons)

subsection \<open>The claims\<close>

text \<open>
  Claim C1. For a valid configuration and an entropy stream of \<open>Math.random()\<close>, the result
  of a trial satisfies \<open>penetratedRealWarheads + interceptedRealWarheads = realWarheads\<close>, and
  \<open>realWarheads\<close> is the number of missiles times the MIRVs per missile: every real warhead
  is counted exactly once. In the loop a warhead adds one to \<open>interceptedRealWarheads\<close> if
  it is detected, classified as a warhead and killed by its engagement, and one to
  \<open>penetratedRealWarheads\<close> otherwise (undetected, not classified as a warhead, or engaged
  and missed).
\<close>

theorem every_warhead_one_fate:
  assumes "validConfig ps" "validRng g"
  shows "penetratedRealWarheads (fst (runOneTrial ps g)) +
         interceptedRealWarheads (fst (runOneTrial ps g)) =
         realWarheads (fst (runOneTrial ps g)) \<and>
         realWarheads (fst (runOneTrial ps g)) = nMissiles ps * mirvsPerMissile ps \<and>
         (kind tgt = ''warhead'' \<longrightarrow>
            (if fst (bernoulli pd h) \<and> fst (classifyTarget tgt ps (snd (bernoulli pd h))) \<and>
                killed (fst (engageTarget tgt (ps\<lparr>pkWarhead := pw, pkDecoy := pk\<rparr>)
                  (inventoryRemaining st) (snd (classifyTarget tgt ps (snd (bernoulli pd h))))))
             then interceptedRealWarheads (fst (processTarget ps pd pw pk tgt st h)) =
                    interceptedRealWarheads st + 1 \<and>
                  penetratedRealWarheads (fst (processTarget ps pd pw pk tgt st h)) =
                    penetratedRealWarheads st
             else interceptedRealWarheads (fst (processTarget ps pd pw pk tgt st h)) =
                    interceptedRealWarheads st \<and>
                  penetratedRealWarheads (fst (processTarget ps pd pw pk tgt st h)) =
                    penetratedRealWarheads st + 1))"
proof (intro conjI impI)
  have rw: "0 \<le> nMissiles ps * mirvsPerMissile ps"
    using assms(1) by (simp add: validConfig_def)
  show "penetratedRealWarheads (fst (runOneTrial ps g)) +
         interceptedRealWarheads (fst (runOneTrial ps g)) =
         realWarheads (fst (runOneTrial ps g))"
    using rw generate_warheads [OF assms(2), of ps]
    by (simp add: runOneTrial_def case_prod_beta trialLoop_fates trialLoop_realWarheads
        trialStart_def generate_counts)
  show "realWarheads (fst (runOneTrial ps g)) = nMissiles ps * mirvsPerMissile ps"
    by (rule runOneTrial_realWarheads)
next
  assume "kind tgt = ''warhead''"
  then show "if fst (bernoulli pd h) \<and> fst (classifyTarget tgt ps (snd (bernoulli pd h))) \<and>
                killed (fst (engageTarget tgt (ps\<lparr>pkWarhead := pw, pkDecoy := pk\<rparr>)
                  (inventoryRemaining st) (snd (classifyTarget tgt ps (snd (bernoulli pd h))))))
             then interceptedRealWarheads (fst (processTarget ps pd pw pk tgt st h)) =
                    interceptedRealWarheads st + 1 \<and>
                  penetratedRealWarheads (fst (processTarget ps pd pw pk tgt st h)) =
                    penetratedRealWarheads st
             else interceptedRealWarheads (fst (processTarget ps pd pw pk tgt st h)) =
                    interceptedRealWarheads st \<and>
                  penetratedRealWarheads (fst (processTarget ps pd pw pk tgt st h)) =
                    penetratedRealWarheads st + 1"
    by (simp add: processTarget_def Let_def case_prod_beta)
qed

theorem every_warhead_one_fate_witness:
  "validConfig raid \<and> validRng (sconst (1 / 2)) \<and>
   kind \<lparr>kind = ''warhead'', ident = ''W0''\<rparr> = ''warhead'' \<and>
   penetratedRealWarheads (fst (runOneTrial raid (sconst (1 / 2)))) +
   interceptedRealWarheads (fst (runOneTrial raid (sconst (1 / 2)))) = 4 \<and>
   interceptedRealWarheads (fst (processTarget raid (9 / 10) (7 / 10) (7 / 10)
     \<lparr>kind = ''warhead'', ident = ''W0''\<rparr> (trialStart raid 4 True) (sconst (1 / 2)))) = 1"
proof -
  have v: "validConfig raid" "validRng (sconst (1 / 2))"
    by (simp_all add: validConfig_def validRng_def raid_def)
  have k: "kind \<lparr>kind = ''warhead'', ident = ''W0''\<rparr> = ''warhead''" by simp
  have e: "fst (bernoulli (9 / 10) (sconst (1 / 2))) \<and>
      fst (classifyTarget \<lparr>kind = ''warhead'', ident = ''W0''\<rparr> raid
             (snd (bernoulli (9 / 10) (sconst (1 / 2))))) \<and>
      killed (fst (engageTarget \<lparr>kind = ''warhead'', ident = ''W0''\<rparr>
                (raid\<lparr>pkWarhead := 7 / 10, pkDecoy := 7 / 10\<rparr>)
                (inventoryRemaining (trialStart raid 4 True))
                (snd (classifyTarget \<lparr>kind = ''warhead'', ident = ''W0''\<rparr> raid
                        (snd (bernoulli (9 / 10) (sconst (1 / 2))))))))"
    by (simp add: bernoulli_eq classifyTarget_def engageTarget_def raid_def trialStart_def
        sls_loop.simps)
  have n: "nMissiles raid * mirvsPerMissile raid = 4" by (simp add: raid_def)
  have i0: "interceptedRealWarheads (trialStart raid 4 True) = 0" by (simp add: trialStart_def)
  note c = every_warhead_one_fate [OF v, of "\<lparr>kind = ''warhead'', ident = ''W0''\<rparr>" "9 / 10" "sconst (1 / 2)"
      "7 / 10" "7 / 10" "trialStart raid 4 True"]
  have "penetratedRealWarheads (fst (runOneTrial raid (sconst (1 / 2)))) +
   interceptedRealWarheads (fst (runOneTrial raid (sconst (1 / 2)))) = 4"
    using c n by simp
  moreover have "interceptedRealWarheads (fst (processTarget raid (9 / 10) (7 / 10) (7 / 10)
     \<lparr>kind = ''warhead'', ident = ''W0''\<rparr> (trialStart raid 4 True) (sconst (1 / 2)))) = 1"
    using c k e i0 by (simp del: params.update_convs)
  ultimately show ?thesis using v k by blast
qed

text \<open>
  Claim C2, amended. In barrage mode, with \<open>0 < inventory \<le> 2^53\<close> and a configured
  (non-negative) shots-per-target, the outcome reports \<open>shotsFired = alloc\<close> and
  \<open>inventoryRemaining = inventory - alloc\<close> for \<open>alloc = min shotsPerTarget inventory\<close>,
  whatever the draws are, and \<open>killed\<close> holds exactly if one of the first \<open>alloc\<close> draws
  is below the kill probability of the object's true kind.
\<close>

theorem barrage_charges_allocation:
  assumes "doctrineMode ps = ''barrage''" and "0 < inventory" and "inventory \<le> 2 ^ 53"
    and "0 \<le> shotsPerTarget ps"
  shows "shotsFired (fst (engageTarget tgt ps inventory g)) = min (shotsPerTarget ps) inventory \<and>
         inventoryRemaining_e (fst (engageTarget tgt ps inventory g)) =
           inventory - min (shotsPerTarget ps) inventory \<and>
         (killed (fst (engageTarget tgt ps inventory g)) \<longleftrightarrow>
            (\<exists>k < nat (min (shotsPerTarget ps) inventory).
               g !! k < (if kind tgt = ''warhead'' then pkWarhead ps else pkDecoy ps)))"
proof (cases "min (shotsPerTarget ps) inventory \<le> 0")
  case True
  then have "min (shotsPerTarget ps) inventory = 0" using assms by simp
  then show ?thesis using assms by (simp add: engageTarget_def Let_def)
next
  case False
  have "\<bar>inventory - min (shotsPerTarget ps) inventory\<bar> \<le> 2 ^ 53" using assms by simp
  then have "dsub inventory (min (shotsPerTarget ps) inventory) =
             inventory - min (shotsPerTarget ps) inventory"
    by (rule dsub_small)
  then show ?thesis
    using False assms(1,2) barrage_loop_killed [of 0 "min (shotsPerTarget ps) inventory"]
    by (simp add: engageTarget_def Let_def case_prod_beta)
qed

theorem barrage_charges_allocation_witness:
  "doctrineMode (raid\<lparr>doctrineMode := ''barrage''\<rparr>) = ''barrage'' \<and> (0::int) < 5 \<and>
   (5::int) \<le> 2 ^ 53 \<and> 0 \<le> shotsPerTarget (raid\<lparr>doctrineMode := ''barrage''\<rparr>) \<and>
   engageTarget \<lparr>kind = ''warhead'', ident = ''W0''\<rparr> (raid\<lparr>doctrineMode := ''barrage''\<rparr>) 5
     (sconst (1 / 2)) =
     (\<lparr>killed = True, shotsFired = 2, inventoryRemaining_e = 3\<rparr>, sconst (1 / 2)) \<and>
   engageTarget \<lparr>kind = ''warhead'', ident = ''W0''\<rparr> (raid\<lparr>doctrineMode := ''barrage''\<rparr>) 5
     (sconst (9 / 10)) =
     (\<lparr>killed = False, shotsFired = 2, inventoryRemaining_e = 3\<rparr>, sconst (9 / 10)) \<and>
   shotsFired (fst (engageTarget \<lparr>kind = ''warhead'', ident = ''W0''\<rparr>
     (raid\<lparr>doctrineMode := ''barrage''\<rparr>) 5 (sconst (1 / 2)))) =
     min (shotsPerTarget (raid\<lparr>doctrineMode := ''barrage''\<rparr>)) 5"
proof -
  let ?p = "raid\<lparr>doctrineMode := ''barrage''\<rparr>"
  have h: "doctrineMode ?p = ''barrage''" "(0::int) < 5" "(5::int) \<le> 2 ^ 53"
    "0 \<le> shotsPerTarget ?p"
    by (simp_all add: raid_def)
  have e1: "engageTarget \<lparr>kind = ''warhead'', ident = ''W0''\<rparr> ?p 5 (sconst (1 / 2)) =
     (\<lparr>killed = True, shotsFired = 2, inventoryRemaining_e = 3\<rparr>, sconst (1 / 2))"
    by (simp add: engageTarget_def raid_def barrage_loop.simps bernoulli_eq dsub_small)
  have e2: "engageTarget \<lparr>kind = ''warhead'', ident = ''W0''\<rparr> ?p 5 (sconst (9 / 10)) =
     (\<lparr>killed = False, shotsFired = 2, inventoryRemaining_e = 3\<rparr>, sconst (9 / 10))"
    by (simp add: engageTarget_def raid_def barrage_loop.simps bernoulli_eq dsub_small)
  note c = barrage_charges_allocation [OF h, of "\<lparr>kind = ''warhead'', ident = ''W0''\<rparr>" "sconst (1 / 2)"]
  show ?thesis using h e1 e2 c by blast
qed

text \<open>
  Above \<open>2^53\<close> the difference is rounded: with an inventory of \<open>2^54\<close> and an allocation
  of one shot the engagement returns the inventory \<open>2^54\<close>, not \<open>2^54 - 1\<close>.
\<close>

theorem barrage_charges_allocation_counterexample:
  "doctrineMode scenario = ''barrage'' \<and> (0::int) < 18014398509481984 \<and>
   inventoryRemaining_e (fst (engageTarget \<lparr>kind = ''warhead'', ident = ''W0''\<rparr> scenario
     18014398509481984 (sconst (1 / 2)))) \<noteq>
   18014398509481984 - min (shotsPerTarget scenario) 18014398509481984"
proof -
  have "engageTarget \<lparr>kind = ''warhead'', ident = ''W0''\<rparr> scenario 18014398509481984
          (sconst (1 / 2)) =
        (\<lparr>killed = True, shotsFired = 1, inventoryRemaining_e = 18014398509481984\<rparr>,
         sconst (1 / 2))"
    by (simp add: engageTarget_def scenario_def barrage_loop.simps bernoulli_eq dsub_2_54)
  then show ?thesis by (simp add: scenario_def)
qed

text \<open>
  Claim C3, amended. In shoot-look-shoot mode (any doctrine other than barrage), with
  \<open>0 \<le> inventory \<le> 2^53\<close> and a configured (non-negative) cap, \<open>shotsFired\<close> is at most
  \<open>min maxShotsPerTarget inventory\<close> and \<open>inventoryRemaining = inventory - shotsFired\<close>. If
  \<open>killed\<close> holds, the shot numbered \<open>shotsFired\<close> is the one whose draw succeeded, every
  earlier shot missed and was followed by a successful re-engagement draw, and no draw is
  consumed after the successful one. If \<open>killed\<close> does not hold, every one of the
  \<open>shotsFired\<close> shots missed and is charged, each consumed its kill draw and its
  re-engagement draw, and the loop stopped because the cap was reached or because the
  re-engagement draw after the last shot failed.
\<close>

theorem sls_charges_per_shot:
  assumes "doctrineMode ps \<noteq> ''barrage''" and "0 \<le> inventory" and "inventory \<le> 2 ^ 53"
    and "0 \<le> maxShotsPerTarget ps"
  shows "0 \<le> shotsFired (fst (engageTarget tgt ps inventory g)) \<and>
         shotsFired (fst (engageTarget tgt ps inventory g)) \<le>
           min (maxShotsPerTarget ps) inventory \<and>
         inventoryRemaining_e (fst (engageTarget tgt ps inventory g)) =
           inventory - shotsFired (fst (engageTarget tgt ps inventory g)) \<and>
         (killed (fst (engageTarget tgt ps inventory g)) \<longrightarrow>
            (\<exists>m. shotsFired (fst (engageTarget tgt ps inventory g)) = int (Suc m) \<and>
                 g !! (2 * m) < (if kind tgt = ''warhead'' then pkWarhead ps else pkDecoy ps) \<and>
                 snd (engageTarget tgt ps inventory g) = sdrop (2 * m + 1) g \<and>
                 (\<forall>j < m. \<not> g !! (2 * j) <
                             (if kind tgt = ''warhead'' then pkWarhead ps else pkDecoy ps) \<and>
                           g !! (2 * j + 1) < pReengage ps))) \<and>
         (\<not> killed (fst (engageTarget tgt ps inventory g)) \<longrightarrow>
            (\<exists>n. shotsFired (fst (engageTarget tgt ps inventory g)) = int n \<and>
                 snd (engageTarget tgt ps inventory g) = sdrop (2 * n) g \<and>
                 (\<forall>j < n. \<not> g !! (2 * j) <
                             (if kind tgt = ''warhead'' then pkWarhead ps else pkDecoy ps)) \<and>
                 (\<forall>j. Suc j < n \<longrightarrow> g !! (2 * j + 1) < pReengage ps) \<and>
                 (int n = min (maxShotsPerTarget ps) inventory \<or>
                  (0 < n \<and> \<not> g !! (2 * n - 1) < pReengage ps))))"
proof -
  let ?pk = "if kind tgt = ''warhead'' then pkWarhead ps else pkDecoy ps"
  let ?cap = "min (maxShotsPerTarget ps) inventory"
  let ?r = "sls_loop 0 ?cap 0 inventory ?pk (pReengage ps) g"
  have cap: "0 \<le> ?cap" using assms by simp
  have eq: "engageTarget tgt ps inventory g = ?r"
  proof (cases "inventory \<le> 0")
    case True
    then have i0: "inventory = 0" using assms(2) by simp
    then have c0: "?cap = 0" using assms(4) by simp
    have "sls_loop 0 0 0 inventory ?pk (pReengage ps) g =
          (\<lparr>killed = False, shotsFired = 0, inventoryRemaining_e = inventory\<rparr>, g)"
      by (simp add: sls_loop.simps [of 0 0] dsub_zero)
    then show ?thesis using assms(1) i0 unfolding c0
      by (simp add: engageTarget_def Let_def)
  next
    case False
    then show ?thesis using assms(1) by (simp add: engageTarget_def Let_def)
  qed
  have p: "0 \<le> shotsFired (fst ?r) \<and> shotsFired (fst ?r) \<le> 0 + max 0 (?cap - 0) \<and>
     inventoryRemaining_e (fst ?r) = dsub inventory (shotsFired (fst ?r))"
    by (rule sls_loop_props)
  then have b: "0 \<le> shotsFired (fst ?r)" "shotsFired (fst ?r) \<le> ?cap"
    using cap by simp_all
  have "\<bar>inventory - shotsFired (fst ?r)\<bar> \<le> 2 ^ 53" using b assms by simp
  then have "dsub inventory (shotsFired (fst ?r)) = inventory - shotsFired (fst ?r)"
    by (rule dsub_small)
  then have rem: "inventoryRemaining_e (fst ?r) = inventory - shotsFired (fst ?r)"
    using p by simp
  have k: "killed (fst ?r) \<Longrightarrow>
       \<exists>m. shotsFired (fst ?r) = 0 + int (Suc m) \<and>
             g !! (2 * m) < ?pk \<and>
             snd ?r = sdrop (2 * m + 1) g \<and>
             (\<forall>j < m. \<not> g !! (2 * j) < ?pk \<and> g !! (2 * j + 1) < pReengage ps)"
    by (rule sls_loop_kill)
  have m: "\<not> killed (fst ?r) \<Longrightarrow>
       \<exists>n. shotsFired (fst ?r) = 0 + int n \<and>
             int n \<le> max 0 (?cap - 0) \<and>
             snd ?r = sdrop (2 * n) g \<and>
             (\<forall>j < n. \<not> g !! (2 * j) < ?pk) \<and>
             (\<forall>j. Suc j < n \<longrightarrow> g !! (2 * j + 1) < pReengage ps) \<and>
             (int n = max 0 (?cap - 0) \<or> (0 < n \<and> \<not> g !! (2 * n - 1) < pReengage ps))"
    by (rule sls_loop_miss)
  have m': "\<not> killed (fst ?r) \<Longrightarrow>
       \<exists>n. shotsFired (fst ?r) = int n \<and>
             snd ?r = sdrop (2 * n) g \<and>
             (\<forall>j < n. \<not> g !! (2 * j) < ?pk) \<and>
             (\<forall>j. Suc j < n \<longrightarrow> g !! (2 * j + 1) < pReengage ps) \<and>
             (int n = ?cap \<or> (0 < n \<and> \<not> g !! (2 * n - 1) < pReengage ps))"
  proof -
    assume "\<not> killed (fst ?r)"
    from m [OF this] obtain n where
      "shotsFired (fst ?r) = 0 + int n"
      "snd ?r = sdrop (2 * n) g"
      "\<forall>j < n. \<not> g !! (2 * j) < ?pk"
      "\<forall>j. Suc j < n \<longrightarrow> g !! (2 * j + 1) < pReengage ps"
      "int n = max 0 (?cap - 0) \<or> (0 < n \<and> \<not> g !! (2 * n - 1) < pReengage ps)"
      by blast
    then show ?thesis using cap by (intro exI [of _ n]) simp
  qed
  show ?thesis unfolding eq using b rem k m' by simp
qed

theorem sls_charges_per_shot_witness:
  "doctrineMode raid \<noteq> ''barrage'' \<and> (0::int) \<le> 5 \<and> (5::int) \<le> 2 ^ 53 \<and>
   0 \<le> maxShotsPerTarget raid \<and>
   engageTarget \<lparr>kind = ''warhead'', ident = ''W0''\<rparr> raid 5
     (9 / 10 ## 1 / 10 ## sconst (1 / 2)) =
     (\<lparr>killed = True, shotsFired = 2, inventoryRemaining_e = 3\<rparr>, sconst (1 / 2)) \<and>
   engageTarget \<lparr>kind = ''warhead'', ident = ''W0''\<rparr> raid 5 (sconst (9 / 10)) =
     (\<lparr>killed = False, shotsFired = 1, inventoryRemaining_e = 4\<rparr>, sconst (9 / 10)) \<and>
   inventoryRemaining_e (fst (engageTarget \<lparr>kind = ''warhead'', ident = ''W0''\<rparr> raid 5
     (sconst (9 / 10)))) =
     5 - shotsFired (fst (engageTarget \<lparr>kind = ''warhead'', ident = ''W0''\<rparr> raid 5
       (sconst (9 / 10))))"
proof -
  have h: "doctrineMode raid \<noteq> ''barrage''" "(0::int) \<le> 5" "(5::int) \<le> 2 ^ 53"
    "0 \<le> maxShotsPerTarget raid"
    by (simp_all add: raid_def)
  have e1: "engageTarget \<lparr>kind = ''warhead'', ident = ''W0''\<rparr> raid 5
     (9 / 10 ## 1 / 10 ## sconst (1 / 2)) =
     (\<lparr>killed = True, shotsFired = 2, inventoryRemaining_e = 3\<rparr>, sconst (1 / 2))"
    by (simp add: engageTarget_def raid_def sls_loop.simps bernoulli_eq dsub_small)
  have e2: "engageTarget \<lparr>kind = ''warhead'', ident = ''W0''\<rparr> raid 5 (sconst (9 / 10)) =
     (\<lparr>killed = False, shotsFired = 1, inventoryRemaining_e = 4\<rparr>, sconst (9 / 10))"
    by (simp add: engageTarget_def raid_def sls_loop.simps bernoulli_eq dsub_small)
  note c = sls_charges_per_shot [OF h, of "\<lparr>kind = ''warhead'', ident = ''W0''\<rparr>" "sconst (9 / 10)"]
  show ?thesis using h e1 e2 c by blast
qed

text \<open>
  Above \<open>2^53\<close> the difference is rounded: with an inventory of \<open>2^54\<close> a kill by the first
  shot returns the inventory \<open>2^54\<close>, not \<open>2^54 - 1\<close>.
\<close>

theorem sls_charges_per_shot_counterexample:
  "doctrineMode raid \<noteq> ''barrage'' \<and>
   shotsFired (fst (engageTarget \<lparr>kind = ''warhead'', ident = ''W0''\<rparr> raid
     18014398509481984 (sconst (1 / 2)))) = 1 \<and>
   inventoryRemaining_e (fst (engageTarget \<lparr>kind = ''warhead'', ident = ''W0''\<rparr> raid
     18014398509481984 (sconst (1 / 2)))) \<noteq>
   18014398509481984 -
   shotsFired (fst (engageTarget \<lparr>kind = ''warhead'', ident = ''W0''\<rparr> raid
     18014398509481984 (sconst (1 / 2))))"
proof -
  have "engageTarget \<lparr>kind = ''warhead'', ident = ''W0''\<rparr> raid 18014398509481984
          (sconst (1 / 2)) =
        (\<lparr>killed = True, shotsFired = 1, inventoryRemaining_e = 18014398509481984\<rparr>,
         sconst (1 / 2))"
    by (simp add: engageTarget_def raid_def sls_loop.simps bernoulli_eq dsub_2_54)
  then show ?thesis by (simp add: raid_def)
qed

text \<open>
  Claim C4. In a trial of a configuration with a non-negative inventory size, the
  inventory counter starts at the configured size, never increases from one object to any
  later one, is never negative, and its last value is the \<open>inventoryRemaining\<close> of the
  trial's result. After an object the counter is the \<open>inventoryRemaining\<close> of that object's
  engagement if it was engaged, and unchanged otherwise.
\<close>

theorem inventory_nonincreasing:
  assumes "0 \<le> nInventory ps"
  shows "hd (trialInventories ps g) = nInventory ps \<and>
         sorted_wrt (\<lambda>a b. b \<le> a) (trialInventories ps g) \<and>
         (\<forall>x \<in> set (trialInventories ps g). 0 \<le> x) \<and>
         last (trialInventories ps g) = inventoryRemaining (fst (runOneTrial ps g)) \<and>
         length (trialInventories ps g) = Suc (length (targets (fst (generateTargets ps g)))) \<and>
         inventoryRemaining (fst (processTarget ps pd pw pk tgt st h)) =
           (if fst (bernoulli pd h) \<and> fst (classifyTarget tgt ps (snd (bernoulli pd h)))
            then inventoryRemaining_e
                   (fst (engageTarget tgt (ps\<lparr>pkWarhead := pw, pkDecoy := pk\<rparr>)
                      (inventoryRemaining st)
                      (snd (classifyTarget tgt ps (snd (bernoulli pd h))))))
            else inventoryRemaining st)"
proof -
  let ?sv = "fst (generateTargets ps g)"
  let ?d = "fst (applyTrialDegradation ps (snd (generateTargets ps g)))"
  let ?g2 = "snd (applyTrialDegradation ps (snd (generateTargets ps g)))"
  let ?st = "trialStart ps (realWarheads_g ?sv) (systemUp_d ?d)"
  have st: "inventoryRemaining ?st = nInventory ps" by (simp add: trialStart_def)
  have tr: "trialInventories ps g =
        inventoryTrace ps (pDetectTrack_trial ?d) (pkWarhead_trial ?d) (pkDecoy_trial ?d)
          (targets ?sv) ?st ?g2"
    by (simp add: trialInventories_def case_prod_beta)
  have "0 \<le> inventoryRemaining ?st" using assms st by simp
  then have "sorted_wrt (\<lambda>a b. b \<le> a) (trialInventories ps g)"
    and "\<forall>x \<in> set (trialInventories ps g). 0 \<le> x"
    unfolding tr using inventoryTrace_sorted inventoryTrace_bounds by blast+
  moreover have "hd (trialInventories ps g) = nInventory ps"
    unfolding tr by (simp add: inventoryTrace_hd st)
  moreover have "last (trialInventories ps g) = inventoryRemaining (fst (runOneTrial ps g))"
    unfolding tr by (simp add: inventoryTrace_last runOneTrial_def case_prod_beta)
  moreover have "length (trialInventories ps g) = Suc (length (targets ?sv))"
    unfolding tr by (simp add: inventoryTrace_length)
  moreover have "inventoryRemaining (fst (processTarget ps pd pw pk tgt st h)) =
           (if fst (bernoulli pd h) \<and> fst (classifyTarget tgt ps (snd (bernoulli pd h)))
            then inventoryRemaining_e
                   (fst (engageTarget tgt (ps\<lparr>pkWarhead := pw, pkDecoy := pk\<rparr>)
                      (inventoryRemaining st)
                      (snd (classifyTarget tgt ps (snd (bernoulli pd h))))))
            else inventoryRemaining st)"
    by (simp add: processTarget_def Let_def case_prod_beta)
  ultimately show ?thesis by blast
qed

theorem inventory_nonincreasing_witness:
  "0 \<le> nInventory (scenario\<lparr>nInventory := 3\<rparr>) \<and>
   trialInventories (scenario\<lparr>nInventory := 3\<rparr>) (sconst (1 / 2)) = [3, 2] \<and>
   inventoryRemaining (fst (runOneTrial (scenario\<lparr>nInventory := 3\<rparr>) (sconst (1 / 2)))) = 2"
  using inventory_nonincreasing [of "scenario\<lparr>nInventory := 3\<rparr>" "sconst (1 / 2)"]
  by (simp add: scenario3_trace)

text \<open>
  Claim C5. The salvo generator returns \<open>realWarheads = M * V\<close> and
  \<open>decoys = realWarheads * D\<close> whatever the entropy is; for a valid configuration and an
  entropy stream of \<open>Math.random()\<close> the returned sequence is a permutation of the generated
  population: exactly \<open>realWarheads\<close> objects of kind warhead and \<open>decoys\<close> objects of kind
  decoy.
\<close>

theorem generateTargets_population:
  "realWarheads_g (fst (generateTargets ps g)) = nMissiles ps * mirvsPerMissile ps \<and>
   decoys (fst (generateTargets ps g)) =
     realWarheads_g (fst (generateTargets ps g)) * decoysPerWarhead ps \<and>
   (validConfig ps \<and> validRng g \<longrightarrow>
      0 \<le> realWarheads_g (fst (generateTargets ps g)) \<and>
      0 \<le> decoys (fst (generateTargets ps g)) \<and>
      mset (map kind (targets (fst (generateTargets ps g)))) =
        replicate_mset (nat (realWarheads_g (fst (generateTargets ps g)))) ''warhead'' +
        replicate_mset (nat (decoys (fst (generateTargets ps g)))) ''decoy'' \<and>
      mset (targets (fst (generateTargets ps g))) =
        mset (map (\<lambda>w. \<lparr>kind = ''warhead'', ident = ''W'' @ decimal w\<rparr>)
                [0..<nat (realWarheads_g (fst (generateTargets ps g)))] @
              map (\<lambda>d. \<lparr>kind = ''decoy'', ident = ''D'' @ decimal d\<rparr>)
                [0..<nat (decoys (fst (generateTargets ps g)))]))"
proof (intro conjI impI)
  show "realWarheads_g (fst (generateTargets ps g)) = nMissiles ps * mirvsPerMissile ps"
    by (simp add: generate_counts)
  show "decoys (fst (generateTargets ps g)) =
     realWarheads_g (fst (generateTargets ps g)) * decoysPerWarhead ps"
    by (simp add: generate_counts)
next
  assume v: "validConfig ps \<and> validRng g"
  show "0 \<le> realWarheads_g (fst (generateTargets ps g))"
    using v by (simp add: generate_counts validConfig_def)
  show "0 \<le> decoys (fst (generateTargets ps g))"
    using v by (simp add: generate_counts validConfig_def)
  show "mset (map kind (targets (fst (generateTargets ps g)))) =
        replicate_mset (nat (realWarheads_g (fst (generateTargets ps g)))) ''warhead'' +
        replicate_mset (nat (decoys (fst (generateTargets ps g)))) ''decoy''"
    using v by (simp only: generate_counts generate_kinds)
  show "mset (targets (fst (generateTargets ps g))) =
        mset (map (\<lambda>w. \<lparr>kind = ''warhead'', ident = ''W'' @ decimal w\<rparr>)
                [0..<nat (realWarheads_g (fst (generateTargets ps g)))] @
              map (\<lambda>d. \<lparr>kind = ''decoy'', ident = ''D'' @ decimal d\<rparr>)
                [0..<nat (decoys (fst (generateTargets ps g)))])"
    using v by (simp only: generate_counts generate_mset)
qed

theorem generateTargets_population_witness:
  "validConfig raid \<and> validRng (sconst (1 / 2)) \<and>
   realWarheads_g (fst (generateTargets raid (sconst (1 / 2)))) = 4 \<and>
   decoys (fst (generateTargets raid (sconst (1 / 2)))) = 4 \<and>
   mset (map kind (targets (fst (generateTargets raid (sconst (1 / 2)))))) =
     replicate_mset 4 ''warhead'' + replicate_mset 4 ''decoy''"
proof -
  let ?sv = "fst (generateTargets raid (sconst (1 / 2)))"
  have v: "validConfig raid \<and> validRng (sconst (1 / 2))"
    by (simp add: validConfig_def validRng_def raid_def)
  have n: "nMissiles raid * mirvsPerMissile raid = 4" "decoysPerWarhead raid = 1"
    by (simp_all add: raid_def)
  note c = generateTargets_population [of raid "sconst (1 / 2)"]
  have rw: "realWarheads_g ?sv = 4" using c n by simp
  have d: "decoys ?sv = 4" using c n by simp
  have "mset (map kind (targets ?sv)) =
        replicate_mset (nat (realWarheads_g ?sv)) ''warhead'' +
        replicate_mset (nat (decoys ?sv)) ''decoy''"
    using c v by blast
  then have k: "mset (map kind (targets ?sv)) =
        replicate_mset 4 ''warhead'' + replicate_mset 4 ''decoy''"
    unfolding rw d by (simp del: mset_map)
  show ?thesis using v rw d k by blast
qed

text \<open>
  Claim C6. An engagement with inventory \<open>\<le> 0\<close>, or a barrage engagement whose allocation
  is \<open>\<le> 0\<close>, is a miss with zero shots fired that leaves the inventory (and the entropy)
  unchanged. In the scenario with one missile, one MIRV, no decoys, detection and
  true-positive rate \<open>1\<close> and inventory \<open>0\<close>, the trial reports one penetrated real warhead,
  none intercepted and no shots.
\<close>

theorem exhausted_inventory_miss:
  "((inventory \<le> 0 \<or> (doctrineMode ps = ''barrage'' \<and> min (shotsPerTarget ps) inventory \<le> 0)) \<longrightarrow>
      engageTarget tgt ps inventory g =
        (\<lparr>killed = False, shotsFired = 0, inventoryRemaining_e = inventory\<rparr>, g)) \<and>
   (nMissiles qs = 1 \<and> mirvsPerMissile qs = 1 \<and> decoysPerWarhead qs = 0 \<and>
    pDetectTrack qs = 1 \<and> pClassifyWarhead qs = 1 \<and> nInventory qs = 0 \<longrightarrow>
      penetratedRealWarheads (fst (runOneTrial qs h)) = 1 \<and>
      interceptedRealWarheads (fst (runOneTrial qs h)) = 0 \<and>
      shotsTotal (fst (runOneTrial qs h)) = 0)"
proof (intro conjI impI)
  assume "inventory \<le> 0 \<or> (doctrineMode ps = ''barrage'' \<and> min (shotsPerTarget ps) inventory \<le> 0)"
  then show "engageTarget tgt ps inventory g =
        (\<lparr>killed = False, shotsFired = 0, inventoryRemaining_e = inventory\<rparr>, g)"
    by (auto simp add: engageTarget_def Let_def)
next
  assume a: "nMissiles qs = 1 \<and> mirvsPerMissile qs = 1 \<and> decoysPerWarhead qs = 0 \<and>
    pDetectTrack qs = 1 \<and> pClassifyWarhead qs = 1 \<and> nInventory qs = 0"
  have t: "targets (fst (generateTargets qs h)) = [\<lparr>kind = ''warhead'', ident = ''W'' @ decimal 0\<rparr>]"
    using a by (simp add: generateTargets_def shuffle_def Let_def)
  show "penetratedRealWarheads (fst (runOneTrial qs h)) = 1"
    using a t
    by (simp add: runOneTrial_def case_prod_beta trialStart_def processTarget_def Let_def
        engageTarget_def)
  show "interceptedRealWarheads (fst (runOneTrial qs h)) = 0"
    using a t
    by (simp add: runOneTrial_def case_prod_beta trialStart_def processTarget_def Let_def
        engageTarget_def)
  show "shotsTotal (fst (runOneTrial qs h)) = 0"
    using a t
    by (simp add: runOneTrial_def case_prod_beta trialStart_def processTarget_def Let_def
        engageTarget_def dadd_small)
qed

theorem exhausted_inventory_miss_witness:
  "(0::int) \<le> 0 \<and>
   engageTarget \<lparr>kind = ''warhead'', ident = ''W0''\<rparr> scenario 0 (sconst (1 / 2)) =
     (\<lparr>killed = False, shotsFired = 0, inventoryRemaining_e = 0\<rparr>, sconst (1 / 2)) \<and>
   nMissiles (scenario\<lparr>nInventory := 0\<rparr>) = 1 \<and>
   mirvsPerMissile (scenario\<lparr>nInventory := 0\<rparr>) = 1 \<and>
   decoysPerWarhead (scenario\<lparr>nInventory := 0\<rparr>) = 0 \<and>
   pDetectTrack (scenario\<lparr>nInventory := 0\<rparr>) = 1 \<and>
   pClassifyWarhead (scenario\<lparr>nInventory := 0\<rparr>) = 1 \<and>
   nInventory (scenario\<lparr>nInventory := 0\<rparr>) = 0 \<and>
   penetratedRealWarheads (fst (runOneTrial (scenario\<lparr>nInventory := 0\<rparr>) (sconst (1 / 2)))) = 1"
proof -
  have s: "nMissiles (scenario\<lparr>nInventory := 0\<rparr>) = 1 \<and>
   mirvsPerMissile (scenario\<lparr>nInventory := 0\<rparr>) = 1 \<and>
   decoysPerWarhead (scenario\<lparr>nInventory := 0\<rparr>) = 0 \<and>
   pDetectTrack (scenario\<lparr>nInventory := 0\<rparr>) = 1 \<and>
   pClassifyWarhead (scenario\<lparr>nInventory := 0\<rparr>) = 1 \<and>
   nInventory (scenario\<lparr>nInventory := 0\<rparr>) = 0"
    by (simp add: scenario_def)
  show ?thesis
    using exhausted_inventory_miss [of 0 scenario "\<lparr>kind = ''warhead'', ident = ''W0''\<rparr>" "sconst (1 / 2)"
        "scenario\<lparr>nInventory := 0\<rparr>" "sconst (1 / 2)"] s
    by simp
qed

text \<open>
  Claim C7. With at least one trial and a non-negative real-warhead count, the summary's
  penetration rate is the sum of the per-trial penetrated-real-warhead counts divided by the
  number of trials (their mean) and divided by the real-warhead count, which is the same in
  every trial; it is \<open>0\<close> when that count is \<open>0\<close>.
\<close>

theorem penetration_rate:
  assumes "1 \<le> nTrials ps" and "0 \<le> nMissiles ps * mirvsPerMissile ps"
  shows "penReal_r (fst (runMonteCarlo ps g)) =
           map penetratedRealWarheads (trialResults (nat (nTrials ps)) ps g) \<and>
         (\<forall>r \<in> set (trialResults (nat (nTrials ps)) ps g).
            realWarheads r = nMissiles ps * mirvsPerMissile ps) \<and>
         realWarheads_s (summary (fst (runMonteCarlo ps g))) =
           Some (nMissiles ps * mirvsPerMissile ps) \<and>
         meanPenReal (summary (fst (runMonteCarlo ps g))) =
           Num (sum_list (map real_of_int (penReal_r (fst (runMonteCarlo ps g)))) /
                real (nat (nTrials ps))) \<and>
         meanPenRateReal (summary (fst (runMonteCarlo ps g))) =
           (if nMissiles ps * mirvsPerMissile ps = 0 then Num 0
            else Num (sum_list (map real_of_int (penReal_r (fst (runMonteCarlo ps g)))) /
                      real (nat (nTrials ps)) /
                      real_of_int (nMissiles ps * mirvsPerMissile ps)))"
proof -
  let ?rs = "trialResults (nat (nTrials ps)) ps g"
  let ?acc = "fst (trials_loop 0 ps noSamples g)"
  obtain n where n: "nat (nTrials ps) = Suc n"
    using assms(1) by (cases "nat (nTrials ps)") simp_all
  have rs: "?rs = fst (runOneTrial ps g) # trialResults n ps (snd (runOneTrial ps g))"
    unfolding n by simp
  have acc: "?acc = foldl (\<lambda>a r. record_trial r a) noSamples ?rs"
    using trials_loop_fold [of 0 ps noSamples g] by simp
  have pen: "penReal ?acc = map penetratedRealWarheads ?rs"
    unfolding acc by (simp add: fold_penReal noSamples_def)
  have rwc: "realWarheadsConst ?acc = Some (nMissiles ps * mirvsPerMissile ps)"
    unfolding acc fold_realWarheadsConst rs
    by (simp add: noSamples_def runOneTrial_realWarheads)
  have ne: "map real_of_int (penReal ?acc) \<noteq> []"
    unfolding pen rs by simp
  have len: "length (map real_of_int (penReal ?acc)) = nat (nTrials ps)"
    unfolding pen by (simp add: trialResults_length)
  have m: "mean (map real_of_int (penReal ?acc)) =
           Num (sum_list (map real_of_int (penReal ?acc)) / real (nat (nTrials ps)))"
    using mean_nonempty [OF ne] unfolding len .
  have run: "penReal_r (fst (runMonteCarlo ps g)) = penReal ?acc"
    "summary (fst (runMonteCarlo ps g)) = summarize ?acc"
    by (simp_all add: runMonteCarlo_def case_prod_beta)
  have "penReal_r (fst (runMonteCarlo ps g)) = map penetratedRealWarheads ?rs"
    unfolding run pen ..
  moreover have "\<forall>r \<in> set ?rs. realWarheads r = nMissiles ps * mirvsPerMissile ps"
    using trialResults_realWarheads by blast
  moreover have "realWarheads_s (summary (fst (runMonteCarlo ps g))) =
           Some (nMissiles ps * mirvsPerMissile ps)"
    unfolding run by (simp add: summarize_def rwc)
  moreover have "meanPenReal (summary (fst (runMonteCarlo ps g))) =
           Num (sum_list (map real_of_int (penReal_r (fst (runMonteCarlo ps g)))) /
                real (nat (nTrials ps)))"
    unfolding run by (simp add: summarize_def m)
  moreover have "meanPenRateReal (summary (fst (runMonteCarlo ps g))) =
           (if nMissiles ps * mirvsPerMissile ps = 0 then Num 0
            else Num (sum_list (map real_of_int (penReal_r (fst (runMonteCarlo ps g)))) /
                      real (nat (nTrials ps)) /
                      real_of_int (nMissiles ps * mirvsPerMissile ps)))"
    unfolding run using assms(2) by (simp add: summarize_def rwc m)
  ultimately show ?thesis by blast
qed

theorem penetration_rate_witness:
  "1 \<le> nTrials (scenario\<lparr>nMissiles := 2\<rparr>) \<and>
   0 \<le> nMissiles (scenario\<lparr>nMissiles := 2\<rparr>) * mirvsPerMissile (scenario\<lparr>nMissiles := 2\<rparr>) \<and>
   penReal_r (fst (runMonteCarlo (scenario\<lparr>nMissiles := 2\<rparr>) (sconst (1 / 2)))) = [1] \<and>
   realWarheads_s (summary (fst (runMonteCarlo (scenario\<lparr>nMissiles := 2\<rparr>) (sconst (1 / 2))))) =
     Some 2 \<and>
   meanPenRateReal (summary (fst (runMonteCarlo (scenario\<lparr>nMissiles := 2\<rparr>) (sconst (1 / 2))))) =
     Num (1 / 2) \<and>
   1 \<le> nTrials (scenario\<lparr>nMissiles := 0\<rparr>) \<and>
   0 \<le> nMissiles (scenario\<lparr>nMissiles := 0\<rparr>) * mirvsPerMissile (scenario\<lparr>nMissiles := 0\<rparr>) \<and>
   meanPenRateReal (summary (fst (runMonteCarlo (scenario\<lparr>nMissiles := 0\<rparr>) (sconst (1 / 2))))) =
     Num 0"
proof -
  let ?p = "scenario\<lparr>nMissiles := 2\<rparr>"
  let ?z = "scenario\<lparr>nMissiles := 0\<rparr>"
  have hp: "1 \<le> nTrials ?p" "0 \<le> nMissiles ?p * mirvsPerMissile ?p"
    and hz: "1 \<le> nTrials ?z" "0 \<le> nMissiles ?z * mirvsPerMissile ?z"
    by (simp_all add: scenario_def)
  have np: "nMissiles ?p * mirvsPerMissile ?p = 2" "nat (nTrials ?p) = Suc 0"
    and nz: "nMissiles ?z * mirvsPerMissile ?z = 0"
    by (simp_all add: scenario_def)
  note cp = penetration_rate [OF hp, of "sconst (1 / 2)"]
  note cz = penetration_rate [OF hz, of "sconst (1 / 2)"]
  have pen: "penReal_r (fst (runMonteCarlo ?p (sconst (1 / 2)))) = [1]"
    using cp unfolding np by (simp add: two_warheads_trial)
  have rw: "realWarheads_s (summary (fst (runMonteCarlo ?p (sconst (1 / 2))))) = Some 2"
    using cp unfolding np by blast
  have "meanPenRateReal (summary (fst (runMonteCarlo ?p (sconst (1 / 2))))) = Num (1 / 2)"
    using cp unfolding np pen by simp
  moreover have "meanPenRateReal (summary (fst (runMonteCarlo ?z (sconst (1 / 2))))) = Num 0"
    using cz unfolding nz by simp
  ultimately show ?thesis using hp hz pen rw by blast
qed

text \<open>
  Claim C8. \<open>percentile [1,2,3,4,5] 50 = 3\<close>, \<open>percentile [1,2] 100 = 2\<close>, both
  \<open>percentile\<close> and \<open>mean\<close> return \<open>NaN\<close> on the empty sequence, and for a non-empty
  sequence and \<open>0 \<le> p \<le> 100\<close> the percentile is the linear interpolation of the sorted
  sequence at index \<open>p / 100 * (n - 1)\<close>.
\<close>

theorem percentile_interpolation:
  "percentile [1, 2, 3, 4, 5] 50 = Num 3 \<and>
   percentile [1, 2] 100 = Num 2 \<and>
   percentile [] p = NaN \<and>
   mean [] = NaN \<and>
   (arr \<noteq> [] \<and> 0 \<le> q \<and> q \<le> 100 \<longrightarrow>
      percentile arr q =
        (let idx = q / 100 * (real (length arr) - 1); w = idx - of_int \<lfloor>idx\<rfloor>
         in Num (sort arr ! nat \<lfloor>idx\<rfloor> * (1 - w) + sort arr ! nat \<lceil>idx\<rceil> * w)))"
proof (intro conjI impI)
  show "percentile [1, 2, 3, 4, 5] 50 = Num 3"
    by (simp add: percentile_def at_index_def)
  show "percentile [1, 2] 100 = Num 2"
    by (simp add: percentile_def at_index_def)
  show "percentile [] p = NaN" by (simp add: percentile_def)
  show "mean [] = NaN" by (simp add: mean_def)
next
  assume a: "arr \<noteq> [] \<and> 0 \<le> q \<and> q \<le> 100"
  define idx where "idx = q / 100 * (real (length arr) - 1)"
  have n: "1 \<le> real (length arr)" using a by (cases arr) simp_all
  have lo0: "0 \<le> idx" using a n by (simp add: idx_def)
  have "q / 100 \<le> 1" using a by simp
  then have "q / 100 * (real (length arr) - 1) \<le> 1 * (real (length arr) - 1)"
    using n by (intro mult_right_mono) simp_all
  then have hi0: "idx \<le> real (length arr) - 1" by (simp add: idx_def)
  have f0: "0 \<le> \<lfloor>idx\<rfloor>" using lo0 by simp
  have c0: "0 \<le> \<lceil>idx\<rceil>" using lo0 by (simp add: ceiling_le_iff le_ceiling_iff)
  have "idx \<le> of_int (int (length arr) - 1)" using hi0 by simp
  then have c1: "\<lceil>idx\<rceil> \<le> int (length arr) - 1" by (simp only: ceiling_le_iff)
  have f1: "\<lfloor>idx\<rfloor> \<le> int (length arr) - 1" using c1 floor_le_ceiling [of idx] by linarith
  have lo: "at_index (sort arr) \<lfloor>idx\<rfloor> = Num (sort arr ! nat \<lfloor>idx\<rfloor>)"
    using f0 f1 by (simp add: at_index_def)
  have hi: "at_index (sort arr) \<lceil>idx\<rceil> = Num (sort arr ! nat \<lceil>idx\<rceil>)"
    using c0 c1 by (simp add: at_index_def)
  have eqw: "\<lfloor>idx\<rfloor> = \<lceil>idx\<rceil> \<Longrightarrow> idx - of_int \<lfloor>idx\<rfloor> = 0"
  proof -
    assume e: "\<lfloor>idx\<rfloor> = \<lceil>idx\<rceil>"
    have 1: "real_of_int \<lfloor>idx\<rfloor> \<le> idx" by (rule of_int_floor_le)
    have "idx \<le> real_of_int \<lceil>idx\<rceil>" by (rule le_of_int_ceiling)
    then have 2: "idx \<le> real_of_int \<lfloor>idx\<rfloor>" by (simp only: e)
    show ?thesis using 1 2 by linarith
  qed
  have ne: "arr \<noteq> []" using a by blast
  have p: "percentile arr q =
     (if \<lfloor>idx\<rfloor> = \<lceil>idx\<rceil> then at_index (sort arr) \<lfloor>idx\<rfloor>
      else js_add (js_mul (at_index (sort arr) \<lfloor>idx\<rfloor>) (1 - (idx - of_int \<lfloor>idx\<rfloor>)))
             (js_mul (at_index (sort arr) \<lceil>idx\<rceil>) (idx - of_int \<lfloor>idx\<rfloor>)))"
    by (simp only: percentile_def Let_def idx_def length_sort length_0_conv ne if_False)
  have "percentile arr q =
     Num (sort arr ! nat \<lfloor>idx\<rfloor> * (1 - (idx - of_int \<lfloor>idx\<rfloor>)) +
          sort arr ! nat \<lceil>idx\<rceil> * (idx - of_int \<lfloor>idx\<rfloor>))"
  proof (cases "\<lfloor>idx\<rfloor> = \<lceil>idx\<rceil>")
    case True
    then show ?thesis using lo eqw [OF True] by (simp add: p)
  next
    case False
    then show ?thesis using lo hi by (simp add: p)
  qed
  then show "percentile arr q =
        (let idx = q / 100 * (real (length arr) - 1); w = idx - of_int \<lfloor>idx\<rfloor>
         in Num (sort arr ! nat \<lfloor>idx\<rfloor> * (1 - w) + sort arr ! nat \<lceil>idx\<rceil> * w))"
    by (simp only: Let_def idx_def)
qed

theorem percentile_interpolation_witness:
  "[1, 2, 3, 4] \<noteq> ([] :: real list) \<and> (0::real) \<le> 50 \<and> (50::real) \<le> 100 \<and>
   percentile [1, 2, 3, 4] 50 = Num (5 / 2)"
proof -
  have e: "percentile [1, 2, 3, 4] 50 = Num (5 / 2)"
    by (simp add: percentile_def at_index_def Let_def)
  show ?thesis using percentile_interpolation [of 0 "[1, 2, 3, 4]" 50] e by simp
qed

text \<open>
  Claim C9, amended. In every trial of a configuration with an inventory size between \<open>0\<close>
  and \<open>2^53\<close>, under both doctrines, the interceptors consumed are the shots fired: the
  configured inventory size minus the result's \<open>inventoryRemaining\<close> equals \<open>shotsTotal\<close>.
\<close>

theorem shots_equal_depletion:
  assumes "0 \<le> nInventory ps" and "nInventory ps \<le> 2 ^ 53"
  shows "nInventory ps - inventoryRemaining (fst (runOneTrial ps g)) =
         shotsTotal (fst (runOneTrial ps g))"
proof -
  let ?sv = "fst (generateTargets ps g)"
  let ?d = "fst (applyTrialDegradation ps (snd (generateTargets ps g)))"
  let ?g2 = "snd (applyTrialDegradation ps (snd (generateTargets ps g)))"
  let ?st = "trialStart ps (realWarheads_g ?sv) (systemUp_d ?d)"
  have st: "inventoryRemaining ?st = nInventory ps" "shotsTotal ?st = 0"
    by (simp_all add: trialStart_def)
  have "inventoryRemaining (fst (runOneTrial ps g)) + shotsTotal (fst (runOneTrial ps g)) =
        inventoryRemaining ?st + shotsTotal ?st"
    unfolding runOneTrial_def case_prod_beta
    using assms by (intro trialLoop_shots) (simp_all add: st)
  then show ?thesis by (simp add: st)
qed

theorem shots_equal_depletion_witness:
  "0 \<le> nInventory (scenario\<lparr>nInventory := 9007199254740992\<rparr>) \<and>
   nInventory (scenario\<lparr>nInventory := 9007199254740992\<rparr>) \<le> 2 ^ 53 \<and>
   nInventory (scenario\<lparr>nInventory := 9007199254740992\<rparr>) -
   inventoryRemaining (fst (runOneTrial (scenario\<lparr>nInventory := 9007199254740992\<rparr>)
     (sconst (1 / 2)))) = 1 \<and>
   shotsTotal (fst (runOneTrial (scenario\<lparr>nInventory := 9007199254740992\<rparr>)
     (sconst (1 / 2)))) = 1"
proof -
  have h: "0 \<le> nInventory (scenario\<lparr>nInventory := 9007199254740992\<rparr>)"
    "nInventory (scenario\<lparr>nInventory := 9007199254740992\<rparr>) \<le> 2 ^ 53"
    by simp_all
  note c = shots_equal_depletion [OF h, of "sconst (1 / 2)"]
  show ?thesis using h c scenario_2_53_trial by simp
qed

text \<open>
  With an inventory size of \<open>2^54\<close> the single-warhead scenario fires one shot and leaves
  the inventory at \<open>2^54\<close>: the difference is \<open>0\<close> and \<open>shotsTotal\<close> is \<open>1\<close>.
\<close>

theorem shots_equal_depletion_counterexample:
  "validConfig (scenario\<lparr>nInventory := 18014398509481984\<rparr>) \<and> validRng (sconst (1 / 2)) \<and>
   nInventory (scenario\<lparr>nInventory := 18014398509481984\<rparr>) -
   inventoryRemaining (fst (runOneTrial (scenario\<lparr>nInventory := 18014398509481984\<rparr>)
     (sconst (1 / 2)))) \<noteq>
   shotsTotal (fst (runOneTrial (scenario\<lparr>nInventory := 18014398509481984\<rparr>)
     (sconst (1 / 2))))"
proof -
  have "validConfig (scenario\<lparr>nInventory := 18014398509481984\<rparr>)"
    by (simp add: validConfig_def scenario_def)
  moreover have "validRng (sconst (1 / 2))" by (simp add: validRng_def)
  ultimately show ?thesis using scenario_2_54_trial by simp
qed

text \<open>
  Claim C10. For every doctrine mode other than the string \<open>barrage\<close>, \<open>engageTarget\<close>
  resolves the engagement with the shoot-look-shoot loop; the result does not depend on
  which other string the mode is.
\<close>

theorem unknown_doctrine_sls:
  assumes "doctrineMode ps \<noteq> ''barrage''"
  shows "engageTarget tgt ps inventory g =
     (if inventory \<le> 0 then
        (\<lparr>killed = False, shotsFired = 0, inventoryRemaining_e = inventory\<rparr>, g)
      else sls_loop 0 (min (maxShotsPerTarget ps) inventory) 0 inventory
             (if kind tgt = ''warhead'' then pkWarhead ps else pkDecoy ps) (pReengage ps) g) \<and>
     engageTarget tgt ps inventory g = engageTarget tgt (ps\<lparr>doctrineMode := ''sls''\<rparr>) inventory g"
  using assms by (simp add: engageTarget_def Let_def)

theorem unknown_doctrine_sls_witness:
  "doctrineMode (raid\<lparr>doctrineMode := ''salvo''\<rparr>) \<noteq> ''barrage'' \<and>
   engageTarget \<lparr>kind = ''decoy'', ident = ''D0''\<rparr> (raid\<lparr>doctrineMode := ''salvo''\<rparr>) 5
     (sconst (1 / 2)) =
   engageTarget \<lparr>kind = ''decoy'', ident = ''D0''\<rparr>
     (raid\<lparr>doctrineMode := ''salvo'', doctrineMode := ''sls''\<rparr>) 5 (sconst (1 / 2)) \<and>
   engageTarget \<lparr>kind = ''decoy'', ident = ''D0''\<rparr> (raid\<lparr>doctrineMode := ''salvo''\<rparr>) 5
     (sconst (1 / 2)) =
   (\<lparr>killed = True, shotsFired = 1, inventoryRemaining_e = 4\<rparr>, sconst (1 / 2))"
proof -
  have h: "doctrineMode (raid\<lparr>doctrineMode := ''salvo''\<rparr>) \<noteq> ''barrage''" by simp
  have e: "sls_loop 0 (min (maxShotsPerTarget (raid\<lparr>doctrineMode := ''salvo''\<rparr>)) 5) 0 5
             (if kind \<lparr>kind = ''decoy'', ident = ''D0''\<rparr> = ''warhead''
              then pkWarhead (raid\<lparr>doctrineMode := ''salvo''\<rparr>)
              else pkDecoy (raid\<lparr>doctrineMode := ''salvo''\<rparr>))
             (pReengage (raid\<lparr>doctrineMode := ''salvo''\<rparr>)) (sconst (1 / 2)) =
           (\<lparr>killed = True, shotsFired = 1, inventoryRemaining_e = 4\<rparr>, sconst (1 / 2))"
    by (simp add: raid_def sls_loop.simps bernoulli_eq dsub_small)
  note c = unknown_doctrine_sls [OF h, of "\<lparr>kind = ''decoy'', ident = ''D0''\<rparr>" 5 "sconst (1 / 2)"]
  have "engageTarget \<lparr>kind = ''decoy'', ident = ''D0''\<rparr> (raid\<lparr>doctrineMode := ''salvo''\<rparr>) 5
     (sconst (1 / 2)) =
   (\<lparr>killed = True, shotsFired = 1, inventoryRemaining_e = 4\<rparr>, sconst (1 / 2))"
    using c e by simp
  then show ?thesis using c h by blast
qed

end
